theory Spec2Isabelle
  imports Complex_Main "HOL-Library.Word"
begin

section \<open>MorseStateSpace.h: data model\<close>

text \<open>
  The header declares a compound state whose children are reached through an array of
  pointers (\<open>components\<close>), and body-indexed accessors that hand out pointers and
  references into those children.  Because the claims are about which storage an accessor
  reaches, the model keeps an explicit store: addresses are natural numbers, the child
  objects and the arrays of doubles live in two maps, and a state is the array of child
  addresses together with its \<open>validCollision\<close> flag.

  \<open>unsigned int\<close> is a 32-bit word, so \<open>body * 4 + 3\<close> wraps as it does in C++.
  A \<open>double\<close> is a real number: the development only stores, compares and initialises
  finite doubles and performs no arithmetic on them.
\<close>

type_synonym addr = nat
type_synonym uint = "32 word"
type_synonym double = real

text \<open>
  \<open>PreconditionViolation\<close> stands for the undefined behaviour of C++ (an index outside
  the \<open>components\<close> array, a child of the wrong dynamic type, a null environment
  pointer); \<open>ConfigurationError\<close> is the construction failure of the specification.
\<close>

datatype error = PreconditionViolation | ConfigurationError

text \<open>
  The two kinds of child state: \<open>RealVectorStateSpace::StateType\<close> holds the pointer
  \<open>values\<close> (here \<open>values_ptr\<close>) to its array of doubles,
  \<open>SO3StateSpace::StateType\<close> holds a quaternion.
\<close>

datatype substate =
    RealVectorState (values_ptr: addr)
  | SO3State (qx: double) (qy: double) (qz: double) (qw: double)

record heap =
  states :: "addr \<rightharpoonup> substate"
  doubles :: "addr \<rightharpoonup> double list"
  brk :: addr

text \<open>\<open>MorseStateSpace::StateType\<close> (lines 22-80).\<close>

record StateType =
  components :: "addr list"
  validCollision :: bool

text \<open>
  The constructor of lines 25-27: the base-class constructor leaves the state without
  children, and the member initialiser sets \<open>validCollision(true)\<close>.
\<close>

definition StateType_ctor :: StateType where
  "StateType_ctor = \<lparr>components = [], validCollision = True\<rparr>"

text \<open>
  \<open>as<T>(index)\<close> of the compound base state: \<open>static_cast<T*>(components[index])\<close>.
  Reading outside the array is undefined behaviour.
\<close>

definition as_T :: "StateType \<Rightarrow> uint \<Rightarrow> error + addr" where
  "as_T s index =
     (if unat index < length (components s) then Inr (components s ! unat index)
      else Inl PreconditionViolation)"

text \<open>
  \<open>p->values\<close> for \<open>p\<close> of static type \<open>RealVectorStateSpace::StateType*\<close>: defined
  only when the object at \<open>p\<close> is a real-vector state.
\<close>

definition values_of :: "heap \<Rightarrow> addr \<Rightarrow> error + addr" where
  "values_of h p =
     (case states h p of
        Some (RealVectorState v) \<Rightarrow> Inr v
      | _ \<Rightarrow> Inl PreconditionViolation)"

text \<open>
  The accessors of lines 30-75.  The const and the non-const overload of each have the
  same body, so each pair is one function.  The index expressions are those of the
  source, in 32-bit unsigned arithmetic.
\<close>

definition getBodyPosition :: "heap \<Rightarrow> StateType \<Rightarrow> uint \<Rightarrow> error + addr" where
  "getBodyPosition h s body =
     (case as_T s (body * 4) of Inl e \<Rightarrow> Inl e | Inr p \<Rightarrow> values_of h p)"

definition getBodyRotation :: "StateType \<Rightarrow> uint \<Rightarrow> error + addr" where
  "getBodyRotation s body = as_T s (body * 4 + 3)"

definition getBodyLinearVelocity :: "heap \<Rightarrow> StateType \<Rightarrow> uint \<Rightarrow> error + addr" where
  "getBodyLinearVelocity h s body =
     (case as_T s (body * 4 + 1) of Inl e \<Rightarrow> Inl e | Inr p \<Rightarrow> values_of h p)"

definition getBodyAngularVelocity :: "heap \<Rightarrow> StateType \<Rightarrow> uint \<Rightarrow> error + addr" where
  "getBodyAngularVelocity h s body =
     (case as_T s (body * 4 + 2) of Inl e \<Rightarrow> Inl e | Inr p \<Rightarrow> values_of h p)"

subsection \<open>States laid out for N bodies\<close>

text \<open>
  What a child at index \<open>i\<close> of a state must be: an orientation at the indices
  \<open>4 * b + 3\<close>, and a real vector with an array of three doubles elsewhere.
\<close>

definition child_ok :: "heap \<Rightarrow> nat \<Rightarrow> addr \<Rightarrow> bool" where
  "child_ok h i p =
     (case states h p of
        None \<Rightarrow> False
      | Some (RealVectorState v) \<Rightarrow>
          i mod 4 \<noteq> 3 \<and> (case doubles h v of None \<Rightarrow> False | Some vs \<Rightarrow> length vs = 3)
      | Some (SO3State a b c d) \<Rightarrow> i mod 4 = 3)"

text \<open>
  An allocated state of a space with \<open>N\<close> bodies: \<open>4 * N\<close> children, all of them
  addressable by the \<open>unsigned int\<close> child index that the accessors compute, each child
  its own object of the right kind, and each real-vector child with its own array.
\<close>

definition allocated :: "heap \<Rightarrow> uint \<Rightarrow> StateType \<Rightarrow> bool" where
  "allocated h N s \<longleftrightarrow>
     length (components s) = 4 * unat N \<and>
     4 * unat N \<le> 2 ^ 32 \<and>
     distinct (components s) \<and>
     (\<forall>i < length (components s). child_ok h i (components s ! i)) \<and>
     inj_on (\<lambda>p. map_option values_ptr (states h p))
       {p \<in> set (components s). \<exists>v. states h p = Some (RealVectorState v)}"

text \<open>A state of two bodies, used to run the definitions on concrete input.\<close>

definition example_heap :: heap where
  "example_heap =
     \<lparr>states = [10 \<mapsto> RealVectorState 20, 11 \<mapsto> RealVectorState 21,
                12 \<mapsto> RealVectorState 22, 13 \<mapsto> SO3State 0 0 0 1,
                14 \<mapsto> RealVectorState 24, 15 \<mapsto> RealVectorState 25,
                16 \<mapsto> RealVectorState 26, 17 \<mapsto> SO3State 0 0 1 0],
      doubles = [20 \<mapsto> [1, 2, 3], 21 \<mapsto> [0, 0, 0], 22 \<mapsto> [0, 0, 0],
                 24 \<mapsto> [4, 5, 6], 25 \<mapsto> [1, 0, 0], 26 \<mapsto> [0, 0, 1]],
      brk = 30\<rparr>"

definition example_state :: StateType where
  "example_state = \<lparr>components = [10, 11, 12, 13, 14, 15, 16, 17], validCollision = False\<rparr>"

section \<open>Views: reading and writing through what an accessor returns\<close>

text \<open>
  The four accessors by kind, and what each hands out: a \<open>double*\<close> into an array of
  doubles, or a reference to the orientation object.
\<close>

datatype kind = Position | LinearVelocity | AngularVelocity | Rotation

datatype view = Doubles addr | Quaternion addr

datatype content = Vector "double list" | Quat double double double double

definition accessor :: "kind \<Rightarrow> heap \<Rightarrow> StateType \<Rightarrow> uint \<Rightarrow> error + view" where
  "accessor k h s body =
     (case k of
        Position \<Rightarrow> map_sum id Doubles (getBodyPosition h s body)
      | LinearVelocity \<Rightarrow> map_sum id Doubles (getBodyLinearVelocity h s body)
      | AngularVelocity \<Rightarrow> map_sum id Doubles (getBodyAngularVelocity h s body)
      | Rotation \<Rightarrow> map_sum id Quaternion (getBodyRotation s body))"

text \<open>The child index each accessor computes (lines 32, 56, 68 and 44).\<close>

definition childIndex :: "kind \<Rightarrow> uint \<Rightarrow> uint" where
  "childIndex k body =
     (case k of
        Position \<Rightarrow> body * 4
      | LinearVelocity \<Rightarrow> body * 4 + 1
      | AngularVelocity \<Rightarrow> body * 4 + 2
      | Rotation \<Rightarrow> body * 4 + 3)"

definition offset :: "kind \<Rightarrow> nat" where
  "offset k = (case k of Position \<Rightarrow> 0 | LinearVelocity \<Rightarrow> 1 | AngularVelocity \<Rightarrow> 2 | Rotation \<Rightarrow> 3)"

text \<open>
  Reading and assigning through a view, as the caller of an accessor does with the
  pointer or reference it received.  Assigning the elements of an array does not change
  its length, and assigning a quaternion needs an orientation object at the address.
\<close>

fun readView :: "heap \<Rightarrow> view \<Rightarrow> error + content" where
  "readView h (Doubles p) =
     (case doubles h p of None \<Rightarrow> Inl PreconditionViolation | Some vs \<Rightarrow> Inr (Vector vs))"
| "readView h (Quaternion p) =
     (case states h p of
        Some (SO3State a b c d) \<Rightarrow> Inr (Quat a b c d)
      | _ \<Rightarrow> Inl PreconditionViolation)"

fun writeView :: "heap \<Rightarrow> view \<Rightarrow> content \<Rightarrow> error + heap" where
  "writeView h (Doubles p) (Vector vs) =
     (case doubles h p of
        None \<Rightarrow> Inl PreconditionViolation
      | Some old \<Rightarrow>
          if length vs = length old then Inr (h\<lparr>doubles := (doubles h)(p \<mapsto> vs)\<rparr>)
          else Inl PreconditionViolation)"
| "writeView h (Quaternion p) (Quat a b c d) =
     (case states h p of
        Some (SO3State a' b' c' d') \<Rightarrow> Inr (h\<lparr>states := (states h)(p \<mapsto> SO3State a b c d)\<rparr>)
      | _ \<Rightarrow> Inl PreconditionViolation)"
| "writeView h (Doubles p) (Quat a b c d) = Inl PreconditionViolation"
| "writeView h (Quaternion p) (Vector vs) = Inl PreconditionViolation"

section \<open>The state space\<close>

text \<open>
  The class \<open>MorseStateSpace\<close> (lines 17-163).  Only \<open>getEnvironment\<close> and
  \<open>getNrBodies\<close> have their bodies in the header; the other member functions are
  declared there and defined elsewhere.  Their models below are written from the
  specification and marked as such.
\<close>

record RealVectorBounds =
  low :: "double list"
  high :: "double list"

text \<open>
  The component spaces of the compound space: a real-vector space with its dimension and
  bounds, or the space of orientations.
\<close>

datatype subspace =
    RealVectorStateSpace (dimension: nat) (bounds: RealVectorBounds)
  | SO3StateSpace

text \<open>
  The environment, as far as the space reads it: the member \<open>rigidBodies_\<close> of line 114
  and the bounding volume of the specification's environment interface.  Its declaration
  is not part of the header; following the specification ("N = body count, fixed at
  construction, taken from the environment") the body count is a value of the
  environment that nothing updates.
\<close>

record MorseEnvironment =
  rigidBodies :: uint
  boundingVolume :: RealVectorBounds

text \<open>
  The space: the member \<open>env_\<close> of line 162 (a shared pointer, \<open>None\<close> when null) and
  the subspaces and weights of the compound base class.
\<close>

record MorseStateSpace =
  env :: "MorseEnvironment option"
  subspaces :: "subspace list"
  weights :: "double list"

text \<open>Lines 106-109.\<close>

definition getEnvironment :: "MorseStateSpace \<Rightarrow> MorseEnvironment option" where
  "getEnvironment sp = env sp"

text \<open>Lines 112-115: \<open>return env_->rigidBodies_\<close>; dereferencing null is undefined.\<close>

definition getNrBodies :: "MorseStateSpace \<Rightarrow> error + uint" where
  "getNrBodies sp =
     (case env sp of None \<Rightarrow> Inl PreconditionViolation | Some e \<Rightarrow> Inr (rigidBodies e))"

subsection \<open>Bounds\<close>

definition setBounds :: "RealVectorBounds \<Rightarrow> subspace \<Rightarrow> subspace" where
  "setBounds b c =
     (case c of RealVectorStateSpace n old \<Rightarrow> RealVectorStateSpace n b | SO3StateSpace \<Rightarrow> SO3StateSpace)"

definition setBoundsAt :: "nat \<Rightarrow> RealVectorBounds \<Rightarrow> subspace list \<Rightarrow> subspace list" where
  "setBoundsAt k b cs = map (\<lambda>(i, c). if i mod 4 = k then setBounds b c else c) (enumerate 0 cs)"

text \<open>
  Modelled from the spec: the bodies of \<open>setVolumeBounds\<close>, \<open>setLinearVelocityBounds\<close>
  and \<open>setAngularVelocityBounds\<close> (declared at lines 124, 127 and 130) are missing.
  Specification 4.2: they "let a caller override any of the three kinds uniformly across
  all bodies".
\<close>

definition setVolumeBounds :: "RealVectorBounds \<Rightarrow> MorseStateSpace \<Rightarrow> MorseStateSpace" where
  "setVolumeBounds b sp = sp\<lparr>subspaces := setBoundsAt 0 b (subspaces sp)\<rparr>"

definition setLinearVelocityBounds :: "RealVectorBounds \<Rightarrow> MorseStateSpace \<Rightarrow> MorseStateSpace" where
  "setLinearVelocityBounds b sp = sp\<lparr>subspaces := setBoundsAt 1 b (subspaces sp)\<rparr>"

definition setAngularVelocityBounds :: "RealVectorBounds \<Rightarrow> MorseStateSpace \<Rightarrow> MorseStateSpace" where
  "setAngularVelocityBounds b sp = sp\<lparr>subspaces := setBoundsAt 2 b (subspaces sp)\<rparr>"

definition unitBox :: RealVectorBounds where
  "unitBox = \<lparr>low = [-1, -1, -1], high = [1, 1, 1]\<rparr>"

text \<open>
  Modelled from the spec: the body of \<open>setDefaultBounds\<close> (declared at line 121) is
  missing.  Specification 4.2: it "queries the environment for a bounding volume enclosing
  all bodies/obstacles and applies it to every position subspace; sets linear- and
  angular-velocity bounds to the symmetric unit box per axis".
\<close>

definition setDefaultBounds :: "MorseStateSpace \<Rightarrow> error + MorseStateSpace" where
  "setDefaultBounds sp =
     (case env sp of
        None \<Rightarrow> Inl PreconditionViolation
      | Some e \<Rightarrow>
          Inr (setAngularVelocityBounds unitBox
                (setLinearVelocityBounds unitBox
                  (setVolumeBounds (boundingVolume e) sp))))"

subsection \<open>Construction\<close>

definition unsetBounds :: RealVectorBounds where
  "unsetBounds = \<lparr>low = [], high = []\<rparr>"

text \<open>The four subspaces added for one body, and their weights.\<close>

definition bodySubspaces :: "subspace list" where
  "bodySubspaces =
     [RealVectorStateSpace 3 unsetBounds, RealVectorStateSpace 3 unsetBounds,
      RealVectorStateSpace 3 unsetBounds, SO3StateSpace]"

definition bodyWeights :: "double \<Rightarrow> double \<Rightarrow> double \<Rightarrow> double \<Rightarrow> double list" where
  "bodyWeights positionWeight linVelWeight angVelWeight orientationWeight =
     [positionWeight, linVelWeight, angVelWeight, orientationWeight]"

text \<open>
  Modelled from the spec: the body of the constructor (declared at lines 97-99) is
  missing.  Specification 4.1: "given an environment reporting body count N, construct a
  compound space with exactly 4N children in the fixed per-body order above, each tagged
  with the supplied (or default) weight.  Fails with ConfigurationError if N == 0 or the
  environment reference is null."  The header's comment (line 89) adds that default
  bounds are set by calling \<open>setDefaultBounds\<close>.
\<close>

definition MorseStateSpace_ctor ::
  "MorseEnvironment option \<Rightarrow> double \<Rightarrow> double \<Rightarrow> double \<Rightarrow> double \<Rightarrow> error + MorseStateSpace" where
  "MorseStateSpace_ctor e positionWeight linVelWeight angVelWeight orientationWeight =
     (case e of
        None \<Rightarrow> Inl ConfigurationError
      | Some environment \<Rightarrow>
          if rigidBodies environment = 0 then Inl ConfigurationError
          else setDefaultBounds
            \<lparr>env = e,
             subspaces = concat (replicate (unat (rigidBodies environment)) bodySubspaces),
             weights = concat (replicate (unat (rigidBodies environment))
               (bodyWeights positionWeight linVelWeight angVelWeight orientationWeight))\<rparr>)"

text \<open>The default arguments of the declaration, lines 98-99.\<close>

definition MorseStateSpace_default :: "MorseEnvironment option \<Rightarrow> error + MorseStateSpace" where
  "MorseStateSpace_default e = MorseStateSpace_ctor e 1.0 0.5 0.5 1.0"

text \<open>
  The layout of a space for \<open>N\<close> bodies: a live environment reporting \<open>N\<close>, and
  \<open>4 * N\<close> subspaces, orientations exactly at the indices \<open>4 * b + 3\<close> and
  three-dimensional real-vector spaces elsewhere.
\<close>

definition subspace_ok :: "nat \<Rightarrow> subspace \<Rightarrow> bool" where
  "subspace_ok i c =
     (case c of RealVectorStateSpace n b \<Rightarrow> i mod 4 \<noteq> 3 \<and> n = 3 | SO3StateSpace \<Rightarrow> i mod 4 = 3)"

definition layout :: "MorseStateSpace \<Rightarrow> uint \<Rightarrow> bool" where
  "layout sp N \<longleftrightarrow>
     getNrBodies sp = Inr N \<and>
     length (subspaces sp) = 4 * unat N \<and>
     (\<forall>i < length (subspaces sp). subspace_ok i (subspaces sp ! i))"

subsection \<open>Allocation\<close>

text \<open>
  Memory is handed out from the first unused address \<open>brk\<close>.  A real-vector state is an
  object and an array of \<open>n\<close> doubles, an orientation is one object.
\<close>

fun allocSubstate :: "subspace \<Rightarrow> heap \<Rightarrow> addr \<times> heap" where
  "allocSubstate (RealVectorStateSpace n b) h =
     (brk h,
      h\<lparr>states := (states h)(brk h \<mapsto> RealVectorState (brk h + 1)),
        doubles := (doubles h)(brk h + 1 \<mapsto> replicate n 0),
        brk := brk h + 2\<rparr>)"
| "allocSubstate SO3StateSpace h =
     (brk h,
      h\<lparr>states := (states h)(brk h \<mapsto> SO3State 0 0 0 0),
        brk := brk h + 1\<rparr>)"

fun allocStateComponents :: "subspace list \<Rightarrow> heap \<Rightarrow> addr list \<times> heap" where
  "allocStateComponents [] h = ([], h)"
| "allocStateComponents (c # cs) h =
     (case allocSubstate c h of (p, h1) \<Rightarrow>
        (case allocStateComponents cs h1 of (ps, h2) \<Rightarrow> (p # ps, h2)))"

text \<open>
  Modelled from the spec: the body of \<open>allocState\<close> (declared at line 151) is missing.
  Specification 4.3: it "allocates a compound state with 4N children per 4.1 layout, all
  sub-state storage zero-initialized, validCollision = true".  The state object is made
  by the constructor of lines 25-27 and then given one child per subspace.
\<close>

definition allocState :: "MorseStateSpace \<Rightarrow> heap \<Rightarrow> StateType \<times> heap" where
  "allocState sp h =
     (case allocStateComponents (subspaces sp) h of
        (ps, h') \<Rightarrow> (StateType_ctor\<lparr>components := ps\<rparr>, h'))"

text \<open>
  What a freshly allocated child of a subspace looks like in the store: a real-vector
  state points to the array next to it, and all storage is zero.
\<close>

definition fresh_child :: "subspace \<Rightarrow> heap \<Rightarrow> addr \<Rightarrow> bool" where
  "fresh_child c h p =
     (case c of
        RealVectorStateSpace n b \<Rightarrow>
          states h p = Some (RealVectorState (p + 1)) \<and> doubles h (p + 1) = Some (replicate n 0)
      | SO3StateSpace \<Rightarrow> states h p = Some (SO3State 0 0 0 0))"

definition empty_heap :: heap where
  "empty_heap = \<lparr>states = Map.empty, doubles = Map.empty, brk = 0\<rparr>"

subsection \<open>Bounds check\<close>

definition inBounds :: "RealVectorBounds \<Rightarrow> double list \<Rightarrow> bool" where
  "inBounds b vs \<longleftrightarrow> list_all2 (\<le>) (low b) vs \<and> list_all2 (\<le>) vs (high b)"

text \<open>
  The children are checked in order against the bounds of their subspaces; an
  orientation child is skipped without being read.
\<close>

fun satisfiesBoundsChildren :: "heap \<Rightarrow> (subspace \<times> addr) list \<Rightarrow> error + bool" where
  "satisfiesBoundsChildren h [] = Inr True"
| "satisfiesBoundsChildren h ((SO3StateSpace, p) # rest) = satisfiesBoundsChildren h rest"
| "satisfiesBoundsChildren h ((RealVectorStateSpace n b, p) # rest) =
     (case values_of h p of
        Inl e \<Rightarrow> Inl e
      | Inr v \<Rightarrow>
          (case doubles h v of
             None \<Rightarrow> Inl PreconditionViolation
           | Some vs \<Rightarrow>
               if inBounds b vs then satisfiesBoundsChildren h rest else Inr False))"

text \<open>
  Modelled from the spec: the body of \<open>satisfiesBoundsExceptRotation\<close> (declared at
  line 149) is missing.  Specification 4.2: it "returns true iff every position,
  linear-velocity, and angular-velocity sub-state of every body lies within its
  configured bounds; orientation is never checked".
\<close>

definition satisfiesBoundsExceptRotation :: "MorseStateSpace \<Rightarrow> heap \<Rightarrow> StateType \<Rightarrow> error + bool" where
  "satisfiesBoundsExceptRotation sp h s =
     (if length (components s) = length (subspaces sp)
      then satisfiesBoundsChildren h (zip (subspaces sp) (components s))
      else Inl PreconditionViolation)"

text \<open>
  "Lies within its configured bounds", for the vector that the accessor of kind \<open>k\<close>
  returns for a body: the array behind the returned pointer is within the bounds of the
  subspace at the accessor's child index.
\<close>

definition subStateInBounds :: "MorseStateSpace \<Rightarrow> heap \<Rightarrow> StateType \<Rightarrow> kind \<Rightarrow> uint \<Rightarrow> bool" where
  "subStateInBounds sp h s k body \<longleftrightarrow>
     (\<exists>p vs. accessor k h s body = Inr (Doubles p) \<and> doubles h p = Some vs
        \<and> inBounds (bounds (subspaces sp ! unat (childIndex k body))) vs)"

subsection \<open>Interpolation\<close>

text \<open>
  Modelled from the spec: the body of \<open>interpolate\<close> (declared at line 154) is missing.
  Specification 4.3: the sub-states of \<open>out\<close> are interpolated child by child, and
  "validCollision of out is reset to true".  The interpolation of the children is the
  work of the compound base class and of the component spaces, in double-precision
  arithmetic; it is the parameter \<open>compound\<close>, which changes the store and leaves the
  state object's own members alone.
\<close>

definition interpolate ::
  "(heap \<Rightarrow> StateType \<Rightarrow> StateType \<Rightarrow> double \<Rightarrow> StateType \<Rightarrow> heap)
     \<Rightarrow> heap \<Rightarrow> StateType \<Rightarrow> StateType \<Rightarrow> double \<Rightarrow> StateType \<Rightarrow> heap \<times> StateType" where
  "interpolate compound h a b t out = (compound h a b t out, out\<lparr>validCollision := True\<rparr>)"

text \<open>An environment and a space of two bodies for the state above.\<close>

definition example_env :: MorseEnvironment where
  "example_env = \<lparr>rigidBodies = 2, boundingVolume = \<lparr>low = [-10, -10, -10], high = [10, 10, 10]\<rparr>\<rparr>"

definition example_space :: MorseStateSpace where
  "example_space =
     \<lparr>env = Some example_env,
      subspaces =
        [RealVectorStateSpace 3 (boundingVolume example_env), RealVectorStateSpace 3 unitBox,
         RealVectorStateSpace 3 unitBox, SO3StateSpace,
         RealVectorStateSpace 3 (boundingVolume example_env), RealVectorStateSpace 3 unitBox,
         RealVectorStateSpace 3 unitBox, SO3StateSpace],
      weights = [1, 1 / 2, 1 / 2, 1, 1, 1 / 2, 1 / 2, 1]\<rparr>"

section \<open>Index arithmetic of the accessors\<close>

lemma unat_body_times_4:
  fixes body :: uint
  assumes "unat body < 2 ^ 30"
  shows "unat (body * 4) = 4 * unat body"
proof -
  have "unat (body * 4) = (unat body * 4) mod 2 ^ 32"
    by (simp add: unat_word_ariths)
  also have "\<dots> = unat body * 4"
    using assms by simp
  finally show ?thesis by simp
qed

lemma unat_body_times_4_plus:
  fixes body :: uint
  assumes "unat body < 2 ^ 30" and "k < 4"
  shows "unat (body * 4 + of_nat k) = 4 * unat body + k"
proof -
  have k: "unat (of_nat k :: uint) = k"
    using assms(2) by (simp add: unat_of_nat)
  have "unat (body * 4 + of_nat k) = (unat (body * 4) + unat (of_nat k :: uint)) mod 2 ^ 32"
    by (simp add: unat_word_ariths)
  also have "\<dots> = (4 * unat body + k) mod 2 ^ 32"
    using assms(1) k by (simp add: unat_body_times_4)
  also have "\<dots> = 4 * unat body + k"
    using assms by simp
  finally show ?thesis .
qed

lemma allocated_body_bound:
  assumes "allocated h N s" and "body < N"
  shows "unat body < 2 ^ 30" and "4 * unat body + 3 < length (components s)"
proof -
  have lt: "unat body < unat N"
    using assms(2) by (simp add: word_less_nat_alt)
  have len: "length (components s) = 4 * unat N" and fit: "4 * unat N \<le> 2 ^ 32"
    using assms(1) by (simp_all add: allocated_def)
  show "unat body < 2 ^ 30" using lt fit by simp
  show "4 * unat body + 3 < length (components s)" using lt len by simp
qed

lemma unat_childIndex:
  assumes "unat body < 2 ^ 30"
  shows "unat (childIndex k body) = 4 * unat body + offset k"
proof (cases k)
  case Position
  then show ?thesis using assms by (simp add: childIndex_def offset_def unat_body_times_4)
next
  case LinearVelocity
  then show ?thesis
    using unat_body_times_4_plus [OF assms, of 1] by (simp add: childIndex_def offset_def)
next
  case AngularVelocity
  then show ?thesis
    using unat_body_times_4_plus [OF assms, of 2] by (simp add: childIndex_def offset_def)
next
  case Rotation
  then show ?thesis
    using unat_body_times_4_plus [OF assms, of 3] by (simp add: childIndex_def offset_def)
qed

lemma offset_less_4: "offset k < 4"
  by (cases k) (simp_all add: offset_def)

lemma offset_mod_4: "(4 * n + offset k) mod 4 = offset k"
  using offset_less_4 [of k] by simp

lemma offset_eq_3: "offset k = 3 \<longleftrightarrow> k = Rotation"
  by (cases k) (simp_all add: offset_def)

section \<open>The accessors on allocated states\<close>

lemma allocated_child_ok:
  assumes "allocated h N s" and "i < length (components s)"
  shows "child_ok h i (components s ! i)"
  using assms by (simp add: allocated_def)

lemma allocated_as_T:
  assumes "allocated h N s" and "body < N"
  shows "as_T s (childIndex k body) = Inr (components s ! (4 * unat body + offset k))"
proof -
  have b: "unat body < 2 ^ 30" and len: "4 * unat body + 3 < length (components s)"
    using allocated_body_bound [OF assms] by simp_all
  have "4 * unat body + offset k < length (components s)"
    using len offset_less_4 [of k] by simp
  then show ?thesis
    by (simp add: as_T_def unat_childIndex [OF b])
qed

lemma allocated_vector_child:
  assumes "allocated h N s" and "body < N" and "k \<noteq> Rotation"
  shows "\<exists>p vs. states h (components s ! (4 * unat body + offset k)) = Some (RealVectorState p)
           \<and> doubles h p = Some vs \<and> length vs = 3"
proof -
  have len: "4 * unat body + 3 < length (components s)"
    using allocated_body_bound [OF assms(1,2)] by simp
  have i: "4 * unat body + offset k < length (components s)"
    using len offset_less_4 [of k] by simp
  have "child_ok h (4 * unat body + offset k) (components s ! (4 * unat body + offset k))"
    by (rule allocated_child_ok [OF assms(1) i])
  moreover have "(4 * unat body + offset k) mod 4 \<noteq> 3"
    unfolding offset_mod_4 using assms(3) by (simp add: offset_eq_3)
  ultimately show ?thesis
    by (auto simp: child_ok_def split: option.splits substate.splits)
qed

lemma allocated_rotation_child:
  assumes "allocated h N s" and "body < N"
  shows "\<exists>a b c d. states h (components s ! (4 * unat body + 3)) = Some (SO3State a b c d)"
proof -
  have len: "4 * unat body + 3 < length (components s)"
    using allocated_body_bound [OF assms(1,2)] by simp
  have "child_ok h (4 * unat body + 3) (components s ! (4 * unat body + 3))"
    by (rule allocated_child_ok [OF assms(1) len])
  moreover have "(4 * unat body + 3) mod 4 = 3"
    by simp
  ultimately show ?thesis
    by (auto simp: child_ok_def split: option.splits substate.splits)
qed

lemma accessor_vector:
  assumes "allocated h N s" and "body < N" and "k \<noteq> Rotation"
  shows "\<exists>p. states h (components s ! (4 * unat body + offset k)) = Some (RealVectorState p)
           \<and> accessor k h s body = Inr (Doubles p)"
proof -
  obtain p where p: "states h (components s ! (4 * unat body + offset k)) = Some (RealVectorState p)"
    using allocated_vector_child [OF assms] by blast
  have "accessor k h s body = Inr (Doubles p)"
    using assms(3) allocated_as_T [OF assms(1,2), of k] p
    by (cases k)
       (simp_all add: accessor_def getBodyPosition_def getBodyLinearVelocity_def
          getBodyAngularVelocity_def childIndex_def values_of_def)
  with p show ?thesis by blast
qed

lemma accessor_rotation:
  assumes "allocated h N s" and "body < N"
  shows "accessor Rotation h s body = Inr (Quaternion (components s ! (4 * unat body + 3)))"
  using allocated_as_T [OF assms, of Rotation]
  by (simp add: accessor_def getBodyRotation_def childIndex_def offset_def)

lemma accessor_heap_cong:
  assumes "states h' = states h"
  shows "accessor k h' s body = accessor k h s body"
proof -
  have "values_of h' = values_of h"
    using assms by (simp add: values_of_def fun_eq_iff)
  then show ?thesis
    by (cases k)
       (simp_all add: accessor_def getBodyPosition_def getBodyLinearVelocity_def
          getBodyAngularVelocity_def split: sum.splits)
qed

lemma accessor_Quaternion_kind:
  assumes "accessor k h s body = Inr (Quaternion p)"
  shows "k = Rotation"
  using assms by (cases k) (auto simp: accessor_def map_sum_def split: sum.splits)

lemma accessor_Rotation_heap: "accessor Rotation h' s body = accessor Rotation h s body"
  by (simp add: accessor_def)

lemma write_then_read:
  assumes "accessor k h s body = Inr v" and "writeView h v x = Inr h'"
  shows "accessor k h' s body = Inr v \<and> readView h' v = Inr x"
proof (cases v)
  case (Doubles p)
  then obtain vs where x: "x = Vector vs"
    using assms(2) by (cases x) simp_all
  have h': "h' = h\<lparr>doubles := (doubles h)(p \<mapsto> vs)\<rparr>"
    using assms(2) Doubles x by (simp split: option.splits if_splits)
  have "accessor k h' s body = accessor k h s body"
    by (rule accessor_heap_cong) (simp add: h')
  moreover have "readView h' v = Inr x"
    by (simp add: h' Doubles x)
  ultimately show ?thesis using assms(1) by simp
next
  case (Quaternion p)
  then obtain a b c d where x: "x = Quat a b c d"
    using assms(2) by (cases x) simp_all
  have h': "h' = h\<lparr>states := (states h)(p \<mapsto> SO3State a b c d)\<rparr>"
    using assms(2) Quaternion x by (simp split: option.splits substate.splits)
  have k: "k = Rotation"
    using assms(1) Quaternion by (simp add: accessor_Quaternion_kind)
  have "accessor k h' s body = accessor k h s body"
    unfolding k by (rule accessor_Rotation_heap)
  moreover have "readView h' v = Inr x"
    by (simp add: h' Quaternion x)
  ultimately show ?thesis using assms(1) by simp
qed

lemma all_less_8: "(\<forall>i<8. P i) \<longleftrightarrow> P 0 \<and> P 1 \<and> P 2 \<and> P 3 \<and> P 4 \<and> P 5 \<and> P 6 \<and> P (7::nat)"
proof
  assume a: "\<forall>i<8. P i"
  show "P 0 \<and> P 1 \<and> P 2 \<and> P 3 \<and> P 4 \<and> P 5 \<and> P 6 \<and> P 7"
    using a by simp
next
  assume a: "P 0 \<and> P 1 \<and> P 2 \<and> P 3 \<and> P 4 \<and> P 5 \<and> P 6 \<and> P 7"
  show "\<forall>i<8. P i"
  proof (intro allI impI)
    fix i :: nat assume "i < 8"
    then have "i = 0 \<or> i = 1 \<or> i = 2 \<or> i = 3 \<or> i = 4 \<or> i = 5 \<or> i = 6 \<or> i = 7"
      by arith
    then show "P i" using a by auto
  qed
qed

lemma example_allocated: "allocated example_heap 2 example_state"
proof -
  have "\<forall>i<8. child_ok example_heap i (components example_state ! i)"
    unfolding all_less_8 by (simp add: child_ok_def example_heap_def example_state_def)
  moreover have "inj_on (\<lambda>p. map_option values_ptr (states example_heap p))
       {p \<in> set (components example_state). \<exists>v. states example_heap p = Some (RealVectorState v)}"
    by (auto simp: inj_on_def example_heap_def example_state_def split: if_splits)
  ultimately show ?thesis
    by (simp add: allocated_def example_state_def)
qed

text \<open>
  C1.  In an allocated state of a space with \<open>N\<close> bodies and for \<open>body < N\<close>,
  \<open>getBodyPosition\<close> returns the \<open>values\<close> pointer held by the child at index
  \<open>4 * body\<close>, \<open>getBodyLinearVelocity\<close> the one of child \<open>4 * body + 1\<close>,
  \<open>getBodyAngularVelocity\<close> the one of child \<open>4 * body + 2\<close>, and \<open>getBodyRotation\<close>
  the child \<open>4 * body + 3\<close> itself.  What is returned is the address of the child's own
  storage, not a copy: a value assigned through it is the value read through the same
  accessor afterwards.
\<close>

theorem accessors_return_children_at_fixed_offsets:
  assumes "allocated h N s" and "body < N"
  shows "(\<exists>p. states h (components s ! (4 * unat body)) = Some (RealVectorState p)
            \<and> getBodyPosition h s body = Inr p)
       \<and> (\<exists>p. states h (components s ! (4 * unat body + 1)) = Some (RealVectorState p)
            \<and> getBodyLinearVelocity h s body = Inr p)
       \<and> (\<exists>p. states h (components s ! (4 * unat body + 2)) = Some (RealVectorState p)
            \<and> getBodyAngularVelocity h s body = Inr p)
       \<and> getBodyRotation s body = Inr (components s ! (4 * unat body + 3))
       \<and> (\<forall>k v x h'. accessor k h s body = Inr v \<longrightarrow> writeView h v x = Inr h'
            \<longrightarrow> accessor k h' s body = Inr v \<and> readView h' v = Inr x)"
proof -
  have pos: "\<exists>p. states h (components s ! (4 * unat body)) = Some (RealVectorState p)
            \<and> getBodyPosition h s body = Inr p"
    using accessor_vector [OF assms, of Position]
    by (auto simp: accessor_def offset_def map_sum_def split: sum.splits)
  have lin: "\<exists>p. states h (components s ! (4 * unat body + 1)) = Some (RealVectorState p)
            \<and> getBodyLinearVelocity h s body = Inr p"
    using accessor_vector [OF assms, of LinearVelocity]
    by (auto simp: accessor_def offset_def map_sum_def split: sum.splits)
  have ang: "\<exists>p. states h (components s ! (4 * unat body + 2)) = Some (RealVectorState p)
            \<and> getBodyAngularVelocity h s body = Inr p"
    using accessor_vector [OF assms, of AngularVelocity]
    by (auto simp: accessor_def offset_def map_sum_def split: sum.splits)
  have rot: "getBodyRotation s body = Inr (components s ! (4 * unat body + 3))"
    using accessor_rotation [OF assms]
    by (auto simp: accessor_def map_sum_def split: sum.splits)
  have live: "\<forall>k v x h'. accessor k h s body = Inr v \<longrightarrow> writeView h v x = Inr h'
            \<longrightarrow> accessor k h' s body = Inr v \<and> readView h' v = Inr x"
    using write_then_read by blast
  from pos lin ang rot live show ?thesis by blast
qed

theorem accessors_return_children_at_fixed_offsets_witness:
  "allocated example_heap 2 example_state \<and> (1 :: uint) < 2
   \<and> getBodyPosition example_heap example_state 1 = Inr 24
   \<and> getBodyLinearVelocity example_heap example_state 1 = Inr 25
   \<and> getBodyAngularVelocity example_heap example_state 1 = Inr 26
   \<and> getBodyRotation example_state 1 = Inr 17"
proof -
  have lt: "(1 :: uint) < 2" by simp
  have st: "states example_heap (components example_state ! (4 * unat (1 :: uint))) = Some (RealVectorState 24)"
    "states example_heap (components example_state ! (4 * unat (1 :: uint) + 1)) = Some (RealVectorState 25)"
    "states example_heap (components example_state ! (4 * unat (1 :: uint) + 2)) = Some (RealVectorState 26)"
    "components example_state ! (4 * unat (1 :: uint) + 3) = 17"
    by (simp_all add: example_heap_def example_state_def)
  show ?thesis
    using accessors_return_children_at_fixed_offsets [OF example_allocated lt] example_allocated lt st
    by auto
qed

subsection \<open>Body indices outside the state\<close>

lemma as_T_beyond:
  assumes "allocated h N s" and "N \<le> body" and "unat body < 2 ^ 30"
  shows "as_T s (childIndex k body) = Inl PreconditionViolation"
proof -
  have "unat N \<le> unat body"
    using assms(2) by (simp add: word_le_nat_alt)
  moreover have "length (components s) = 4 * unat N"
    using assms(1) by (simp add: allocated_def)
  ultimately have "\<not> 4 * unat body + offset k < length (components s)"
    by simp
  then show ?thesis
    by (simp add: as_T_def unat_childIndex [OF assms(3)])
qed

text \<open>
  C2, as amended.  The accessors do not check \<open>body\<close>; the only failure is the
  out-of-range read of \<open>components\<close>.  For \<open>N \<le> body < 2^30\<close> the index
  \<open>4 * body + offset\<close> is computed without wrap-around and lies outside the \<open>4 * N\<close>
  children, so each accessor is a precondition violation.  For \<open>body < N\<close> the child
  index of every accessor is below \<open>4 * N\<close> and the accessor returns.
\<close>

theorem accessor_out_of_range_amended:
  assumes "allocated h N s"
  shows "(N \<le> body \<and> unat body < 2 ^ 30 \<longrightarrow>
            getBodyPosition h s body = Inl PreconditionViolation
          \<and> getBodyRotation s body = Inl PreconditionViolation
          \<and> getBodyLinearVelocity h s body = Inl PreconditionViolation
          \<and> getBodyAngularVelocity h s body = Inl PreconditionViolation)
       \<and> (body < N \<longrightarrow>
            (\<forall>k. unat (childIndex k body) < 4 * unat N \<and> (\<exists>v. accessor k h s body = Inr v)))"
proof (intro conjI impI allI)
  assume b: "N \<le> body \<and> unat body < 2 ^ 30"
  have out: "as_T s (childIndex k body) = Inl PreconditionViolation" for k
    using as_T_beyond [OF assms] b by blast
  show "getBodyPosition h s body = Inl PreconditionViolation"
    using out [of Position] by (simp add: getBodyPosition_def childIndex_def)
  show "getBodyRotation s body = Inl PreconditionViolation"
    using out [of Rotation] by (simp add: getBodyRotation_def childIndex_def)
  show "getBodyLinearVelocity h s body = Inl PreconditionViolation"
    using out [of LinearVelocity] by (simp add: getBodyLinearVelocity_def childIndex_def)
  show "getBodyAngularVelocity h s body = Inl PreconditionViolation"
    using out [of AngularVelocity] by (simp add: getBodyAngularVelocity_def childIndex_def)
next
  fix k
  assume b: "body < N"
  have bnd: "unat body < 2 ^ 30" and len: "4 * unat body + 3 < length (components s)"
    using allocated_body_bound [OF assms b] by simp_all
  have "length (components s) = 4 * unat N"
    using assms by (simp add: allocated_def)
  then show "unat (childIndex k body) < 4 * unat N"
    using len offset_less_4 [of k] by (simp add: unat_childIndex [OF bnd])
  show "\<exists>v. accessor k h s body = Inr v"
  proof (cases "k = Rotation")
    case True
    then show ?thesis using accessor_rotation [OF assms b] by simp
  next
    case False
    then show ?thesis using accessor_vector [OF assms b False] by blast
  qed
qed

theorem accessor_out_of_range_amended_witness:
  "allocated example_heap 2 example_state
   \<and> (2 :: uint) \<le> 2 \<and> unat (2 :: uint) < 2 ^ 30
   \<and> getBodyPosition example_heap example_state 2 = Inl PreconditionViolation
   \<and> getBodyRotation example_state 2 = Inl PreconditionViolation
   \<and> getBodyLinearVelocity example_heap example_state 2 = Inl PreconditionViolation
   \<and> getBodyAngularVelocity example_heap example_state 2 = Inl PreconditionViolation
   \<and> (1 :: uint) < 2
   \<and> unat (childIndex Rotation 1) < 4 * unat (2 :: uint)
   \<and> (\<exists>v. accessor Rotation example_heap example_state 1 = Inr v)"
  using accessor_out_of_range_amended [OF example_allocated, of 2]
    accessor_out_of_range_amended [OF example_allocated, of 1] example_allocated
  by simp

text \<open>
  C2 as stated fails: \<open>body = 2^30\<close> is not below \<open>N = 2\<close>, but \<open>body * 4\<close> wraps to
  \<open>0\<close> in 32-bit arithmetic and every accessor returns storage of body \<open>0\<close>.
\<close>

theorem accessor_beyond_N_counterexample:
  "allocated example_heap 2 example_state \<and> (2 :: uint) \<le> 1073741824
   \<and> getBodyPosition example_heap example_state 1073741824 = Inr 20
   \<and> getBodyRotation example_state 1073741824 = Inr 13
   \<and> getBodyLinearVelocity example_heap example_state 1073741824 = Inr 21
   \<and> getBodyAngularVelocity example_heap example_state 1073741824 = Inr 22"
  using example_allocated
  by (simp add: getBodyPosition_def getBodyRotation_def getBodyLinearVelocity_def
        getBodyAngularVelocity_def as_T_def values_of_def example_heap_def example_state_def)

subsection \<open>Disjointness of the children\<close>

lemma offset_inj: "offset k = offset k' \<Longrightarrow> k = k'"
  by (cases k; cases k') (simp_all add: offset_def)

lemma child_position_inj:
  assumes "4 * b + offset k = 4 * b' + offset k'"
  shows "b = b' \<and> k = k'"
proof -
  have "(4 * b + offset k) mod 4 = (4 * b' + offset k') mod 4"
    using assms by simp
  then have o: "offset k = offset k'"
    unfolding offset_mod_4 .
  then have "b = b'" using assms by simp
  with o show ?thesis by (simp add: offset_inj)
qed

lemma allocated_children_distinct:
  assumes "allocated h N s" and "b < N" and "b' < N" and "(k, b) \<noteq> (k', b')"
  shows "components s ! (4 * unat b + offset k) \<noteq> components s ! (4 * unat b' + offset k')"
proof -
  have i: "4 * unat b + offset k < length (components s)"
    using allocated_body_bound(2) [OF assms(1,2)] offset_less_4 [of k] by simp
  have j: "4 * unat b' + offset k' < length (components s)"
    using allocated_body_bound(2) [OF assms(1,3)] offset_less_4 [of k'] by simp
  have d: "distinct (components s)"
    using assms(1) by (simp add: allocated_def)
  have "4 * unat b + offset k \<noteq> 4 * unat b' + offset k'"
    using child_position_inj [of "unat b" k "unat b'" k'] assms(4)
    by (auto simp: word_unat_eq_iff)
  then show ?thesis
    using d i j by (simp add: nth_eq_iff_index_eq)
qed

lemma allocated_arrays_distinct:
  assumes "allocated h N s"
    and "c \<in> set (components s)" and "c' \<in> set (components s)" and "c \<noteq> c'"
    and "states h c = Some (RealVectorState p)" and "states h c' = Some (RealVectorState p')"
  shows "p \<noteq> p'"
proof
  assume "p = p'"
  let ?S = "{p \<in> set (components s). \<exists>v. states h p = Some (RealVectorState v)}"
  have inj: "inj_on (\<lambda>p. map_option values_ptr (states h p)) ?S"
    using assms(1) by (simp add: allocated_def)
  have "c \<in> ?S" and "c' \<in> ?S"
    using assms(2,3,5,6) by simp_all
  moreover have "map_option values_ptr (states h c) = map_option values_ptr (states h c')"
    using assms(5,6) \<open>p = p'\<close> by simp
  ultimately have "c = c'"
    using inj by (simp add: inj_on_def)
  with assms(4) show False by simp
qed

lemma accessor_child:
  assumes "allocated h N s" and "b < N" and "accessor k h s b = Inr v"
  shows "(case v of
            Doubles p \<Rightarrow> k \<noteq> Rotation
              \<and> states h (components s ! (4 * unat b + offset k)) = Some (RealVectorState p)
          | Quaternion q \<Rightarrow> k = Rotation \<and> q = components s ! (4 * unat b + offset k))"
proof (cases "k = Rotation")
  case True
  then show ?thesis
    using accessor_rotation [OF assms(1,2)] assms(3) by (auto simp: offset_def)
next
  case False
  then show ?thesis
    using accessor_vector [OF assms(1,2) False] assms(3) by auto
qed

lemma write_frame:
  assumes al: "allocated h N s" and b: "b < N" and b': "b' < N" and ne: "(k, b) \<noteq> (k', b')"
    and v: "accessor k h s b = Inr v" and v': "accessor k' h s b' = Inr v'"
    and w: "writeView h v x = Inr h'"
  shows "accessor k' h' s b' = Inr v' \<and> readView h' v' = readView h v'"
proof -
  let ?c = "components s ! (4 * unat b + offset k)"
  let ?c' = "components s ! (4 * unat b' + offset k')"
  have cc: "?c \<noteq> ?c'"
    by (rule allocated_children_distinct [OF al b b' ne])
  have i: "4 * unat b + offset k < length (components s)"
    using allocated_body_bound(2) [OF al b] offset_less_4 [of k] by simp
  have j: "4 * unat b' + offset k' < length (components s)"
    using allocated_body_bound(2) [OF al b'] offset_less_4 [of k'] by simp
  have mem: "?c \<in> set (components s)" "?c' \<in> set (components s)"
    using i j by simp_all
  note c = accessor_child [OF al b v]
  note c' = accessor_child [OF al b' v']
  show ?thesis
  proof (cases v)
    case (Doubles p)
    then obtain vs where x: "x = Vector vs"
      using w by (cases x) simp_all
    have h': "h' = h\<lparr>doubles := (doubles h)(p \<mapsto> vs)\<rparr>"
      using w Doubles x by (simp split: option.splits if_splits)
    have acc: "accessor k' h' s b' = Inr v'"
      using accessor_heap_cong [of h' h k' s b'] v' by (simp add: h')
    have p: "states h ?c = Some (RealVectorState p)"
      using c Doubles by simp
    have "readView h' v' = readView h v'"
    proof (cases v')
      case (Doubles p')
      then have "states h ?c' = Some (RealVectorState p')"
        using c' by simp
      then have "p \<noteq> p'"
        using allocated_arrays_distinct [OF al mem cc p] by simp
      then show ?thesis by (simp add: h' Doubles)
    next
      case (Quaternion q')
      then show ?thesis by (simp add: h')
    qed
    with acc show ?thesis by simp
  next
    case (Quaternion q)
    then obtain a1 a2 a3 a4 where x: "x = Quat a1 a2 a3 a4"
      using w by (cases x) simp_all
    have h': "h' = h\<lparr>states := (states h)(q \<mapsto> SO3State a1 a2 a3 a4)\<rparr>"
      using w Quaternion x by (simp split: option.splits substate.splits)
    have q: "q = ?c"
      using c Quaternion by simp
    show ?thesis
    proof (cases v')
      case (Doubles p')
      then have k': "k' \<noteq> Rotation" and p': "states h ?c' = Some (RealVectorState p')"
        using c' by simp_all
      have "states h' ?c' = Some (RealVectorState p')"
        using p' cc q by (simp add: h')
      moreover have "as_T s (childIndex k' b') = Inr ?c'"
        by (rule allocated_as_T [OF al b'])
      ultimately have "accessor k' h' s b' = Inr (Doubles p')"
        using k'
        by (cases k')
           (simp_all add: accessor_def getBodyPosition_def getBodyLinearVelocity_def
              getBodyAngularVelocity_def childIndex_def values_of_def)
      moreover have "readView h' v' = readView h v'"
        by (simp add: h' Doubles)
      ultimately show ?thesis using Doubles by simp
    next
      case Quaternion': (Quaternion q')
      then have k': "k' = Rotation" and q': "q' = ?c'"
        using c' by simp_all
      have "accessor k' h' s b' = accessor k' h s b'"
        unfolding k' by (rule accessor_Rotation_heap)
      moreover have "readView h' v' = readView h v'"
        using cc q q' by (simp add: h' Quaternion')
      ultimately show ?thesis using v' by simp
    qed
  qed
qed

text \<open>
  C10.  In an allocated state, two accessor calls that differ in kind or in body
  (\<open>b, b' < N\<close>) compute different child indices \<open>4 * b + offset\<close>, reach different
  child objects, and an assignment through the view returned by one leaves both the
  view returned by the other and the value read through it unchanged.
\<close>

theorem accessors_address_disjoint_children:
  assumes "allocated h N s" and "b < N" and "b' < N" and "(k, b) \<noteq> (k', b')"
  shows "unat (childIndex k b) = 4 * unat b + offset k
       \<and> childIndex k b \<noteq> childIndex k' b'
       \<and> components s ! unat (childIndex k b) \<noteq> components s ! unat (childIndex k' b')
       \<and> (\<forall>v v' x h'. accessor k h s b = Inr v \<longrightarrow> accessor k' h s b' = Inr v'
             \<longrightarrow> writeView h v x = Inr h'
             \<longrightarrow> accessor k' h' s b' = Inr v' \<and> readView h' v' = readView h v')"
proof -
  have bb: "unat b < 2 ^ 30" and bb': "unat b' < 2 ^ 30"
    using allocated_body_bound(1) [OF assms(1,2)] allocated_body_bound(1) [OF assms(1,3)]
    by simp_all
  have i: "unat (childIndex k b) = 4 * unat b + offset k"
    by (rule unat_childIndex [OF bb])
  have j: "unat (childIndex k' b') = 4 * unat b' + offset k'"
    by (rule unat_childIndex [OF bb'])
  have cc: "components s ! unat (childIndex k b) \<noteq> components s ! unat (childIndex k' b')"
    unfolding i j by (rule allocated_children_distinct [OF assms])
  then have ne: "childIndex k b \<noteq> childIndex k' b'"
    by auto
  have frame: "\<forall>v v' x h'. accessor k h s b = Inr v \<longrightarrow> accessor k' h s b' = Inr v'
             \<longrightarrow> writeView h v x = Inr h'
             \<longrightarrow> accessor k' h' s b' = Inr v' \<and> readView h' v' = readView h v'"
    using write_frame [OF assms] by blast
  from i ne cc frame show ?thesis by blast
qed

theorem accessors_address_disjoint_children_witness:
  "allocated example_heap 2 example_state \<and> (0 :: uint) < 2 \<and> (1 :: uint) < 2
   \<and> (Position, 0 :: uint) \<noteq> (Position, 1)
   \<and> unat (childIndex Position (0 :: uint)) = 0
   \<and> childIndex Position 0 \<noteq> childIndex Position 1
   \<and> accessor Position example_heap example_state 0 = Inr (Doubles 20)
   \<and> accessor Position example_heap example_state 1 = Inr (Doubles 24)
   \<and> writeView example_heap (Doubles 20) (Vector [7, 8, 9])
       = Inr (example_heap\<lparr>doubles := (doubles example_heap)(20 \<mapsto> [7, 8, 9])\<rparr>)
   \<and> readView (example_heap\<lparr>doubles := (doubles example_heap)(20 \<mapsto> [7, 8, 9])\<rparr>) (Doubles 24)
       = Inr (Vector [4, 5, 6])"
proof -
  have lt: "(0 :: uint) < 2" "(1 :: uint) < 2" by simp_all
  have ne: "(Position, 0 :: uint) \<noteq> (Position, 1)" by simp
  have a0: "accessor Position example_heap example_state 0 = Inr (Doubles 20)"
    and a1: "accessor Position example_heap example_state 1 = Inr (Doubles 24)"
    by (simp_all add: accessor_def getBodyPosition_def as_T_def values_of_def
          example_heap_def example_state_def)
  have w: "writeView example_heap (Doubles 20) (Vector [7, 8, 9])
       = Inr (example_heap\<lparr>doubles := (doubles example_heap)(20 \<mapsto> [7, 8, 9])\<rparr>)"
    by (simp add: example_heap_def)
  have r: "readView example_heap (Doubles 24) = Inr (Vector [4, 5, 6])"
    by (simp add: example_heap_def)
  have offs: "offset Position = 0" by (simp add: offset_def)
  show ?thesis
    using accessors_address_disjoint_children [OF example_allocated lt ne]
      example_allocated lt a0 a1 w r offs
    by simp
qed

section \<open>Construction of the space and its body count\<close>

lemma length_concat_replicate: "length (concat (replicate n xs)) = n * length xs"
  by (induction n) simp_all

lemma nth_concat_replicate:
  assumes "i < n * length xs"
  shows "concat (replicate n xs) ! i = xs ! (i mod length xs)"
  using assms
proof (induction n arbitrary: i)
  case 0
  then show ?case by simp
next
  case (Suc n)
  show ?case
  proof (cases "i < length xs")
    case True
    then show ?thesis by (simp add: nth_append)
  next
    case False
    then have "i - length xs < n * length xs"
      using Suc.prems by simp
    then have "concat (replicate n xs) ! (i - length xs) = xs ! ((i - length xs) mod length xs)"
      by (rule Suc.IH)
    moreover have "(i - length xs) mod length xs = i mod length xs"
      using False by (simp add: le_mod_geq)
    ultimately show ?thesis
      using False by (simp add: nth_append)
  qed
qed

lemma length_setBoundsAt: "length (setBoundsAt k b cs) = length cs"
  by (simp add: setBoundsAt_def)

lemma nth_setBoundsAt:
  assumes "i < length cs"
  shows "setBoundsAt k b cs ! i = (if i mod 4 = k then setBounds b (cs ! i) else cs ! i)"
  using assms by (simp add: setBoundsAt_def nth_enumerate_eq)

lemma subspace_ok_setBounds: "subspace_ok i (setBounds b c) = subspace_ok i c"
  by (cases c) (simp_all add: subspace_ok_def setBounds_def)

lemma subspace_ok_setBoundsAt:
  assumes "\<forall>i < length cs. subspace_ok i (cs ! i)"
  shows "\<forall>i < length (setBoundsAt k b cs). subspace_ok i (setBoundsAt k b cs ! i)"
  using assms by (simp add: length_setBoundsAt nth_setBoundsAt subspace_ok_setBounds)

lemma getNrBodies_setVolumeBounds: "getNrBodies (setVolumeBounds b sp) = getNrBodies sp"
  by (simp add: getNrBodies_def setVolumeBounds_def)

lemma getNrBodies_setLinearVelocityBounds:
  "getNrBodies (setLinearVelocityBounds b sp) = getNrBodies sp"
  by (simp add: getNrBodies_def setLinearVelocityBounds_def)

lemma getNrBodies_setAngularVelocityBounds:
  "getNrBodies (setAngularVelocityBounds b sp) = getNrBodies sp"
  by (simp add: getNrBodies_def setAngularVelocityBounds_def)

lemma getNrBodies_setDefaultBounds:
  assumes "setDefaultBounds sp = Inr sp'"
  shows "getNrBodies sp' = getNrBodies sp"
  using assms
  by (auto simp: setDefaultBounds_def getNrBodies_setVolumeBounds
        getNrBodies_setLinearVelocityBounds getNrBodies_setAngularVelocityBounds
      split: option.splits)

lemma layout_setVolumeBounds: "layout sp N \<Longrightarrow> layout (setVolumeBounds b sp) N"
  using subspace_ok_setBoundsAt [of "subspaces sp" 0 b]
  by (simp add: layout_def getNrBodies_setVolumeBounds)
     (simp add: setVolumeBounds_def length_setBoundsAt)

lemma layout_setLinearVelocityBounds: "layout sp N \<Longrightarrow> layout (setLinearVelocityBounds b sp) N"
  using subspace_ok_setBoundsAt [of "subspaces sp" 1 b]
  by (simp add: layout_def getNrBodies_setLinearVelocityBounds)
     (simp add: setLinearVelocityBounds_def length_setBoundsAt)

lemma layout_setAngularVelocityBounds: "layout sp N \<Longrightarrow> layout (setAngularVelocityBounds b sp) N"
  using subspace_ok_setBoundsAt [of "subspaces sp" 2 b]
  by (simp add: layout_def getNrBodies_setAngularVelocityBounds)
     (simp add: setAngularVelocityBounds_def length_setBoundsAt)

lemma layout_setDefaultBounds:
  assumes "layout sp N" and "setDefaultBounds sp = Inr sp'"
  shows "layout sp' N"
  using assms
  by (auto simp: setDefaultBounds_def layout_setVolumeBounds layout_setLinearVelocityBounds
        layout_setAngularVelocityBounds split: option.splits)

lemma weights_setDefaultBounds:
  assumes "setDefaultBounds sp = Inr sp'"
  shows "weights sp' = weights sp"
  using assms
  by (auto simp: setDefaultBounds_def setVolumeBounds_def setLinearVelocityBounds_def
        setAngularVelocityBounds_def split: option.splits)

lemma subspace_ok_bodySubspaces:
  assumes "i < 4 * n"
  shows "subspace_ok i (concat (replicate n bodySubspaces) ! i)"
proof -
  have len: "length bodySubspaces = 4"
    by (simp add: bodySubspaces_def)
  have "concat (replicate n bodySubspaces) ! i = bodySubspaces ! (i mod 4)"
    using nth_concat_replicate [of i n bodySubspaces] assms len by (simp add: mult.commute)
  moreover have "i mod 4 = 0 \<or> i mod 4 = 1 \<or> i mod 4 = 2 \<or> i mod 4 = 3"
    by arith
  ultimately show ?thesis
    by (auto simp: bodySubspaces_def subspace_ok_def)
qed

lemma ctor_success:
  assumes "rigidBodies e \<noteq> 0"
  shows "\<exists>sp. MorseStateSpace_ctor (Some e) pw lw aw ow = Inr sp
           \<and> layout sp (rigidBodies e)
           \<and> env sp = Some e
           \<and> weights sp = concat (replicate (unat (rigidBodies e)) (bodyWeights pw lw aw ow))"
proof -
  let ?sp0 = "\<lparr>env = Some e,
             subspaces = concat (replicate (unat (rigidBodies e)) bodySubspaces),
             weights = concat (replicate (unat (rigidBodies e)) (bodyWeights pw lw aw ow))\<rparr>"
  have l0: "layout ?sp0 (rigidBodies e)"
    using subspace_ok_bodySubspaces [of _ "unat (rigidBodies e)"]
    by (simp add: layout_def getNrBodies_def length_concat_replicate bodySubspaces_def
          mult.commute)
  obtain sp where sp: "setDefaultBounds ?sp0 = Inr sp"
    by (simp add: setDefaultBounds_def)
  have "MorseStateSpace_ctor (Some e) pw lw aw ow = Inr sp"
    using assms sp by (simp add: MorseStateSpace_ctor_def)
  moreover have "layout sp (rigidBodies e)"
    by (rule layout_setDefaultBounds [OF l0 sp])
  moreover have "weights sp = concat (replicate (unat (rigidBodies e)) (bodyWeights pw lw aw ow))"
    using weights_setDefaultBounds [OF sp] by simp
  moreover have "env sp = Some e"
    using \<open>layout sp (rigidBodies e)\<close> sp
    by (auto simp: setDefaultBounds_def setVolumeBounds_def setLinearVelocityBounds_def
        setAngularVelocityBounds_def)
  ultimately show ?thesis by blast
qed

lemma subspace_ok_at:
  assumes "subspace_ok (4 * b + j) c" and "j < 4"
  shows "if j = 3 then c = SO3StateSpace else (\<exists>bnd. c = RealVectorStateSpace 3 bnd)"
proof -
  have "(4 * b + j) mod 4 = j"
    using assms(2) by simp
  then show ?thesis
    using assms(1) by (cases c) (simp_all add: subspace_ok_def)
qed

lemma layout_children:
  assumes "layout sp N" and "b < unat N"
  shows "(\<exists>bnd. subspaces sp ! (4 * b) = RealVectorStateSpace 3 bnd)
       \<and> (\<exists>bnd. subspaces sp ! (4 * b + 1) = RealVectorStateSpace 3 bnd)
       \<and> (\<exists>bnd. subspaces sp ! (4 * b + 2) = RealVectorStateSpace 3 bnd)
       \<and> subspaces sp ! (4 * b + 3) = SO3StateSpace"
proof -
  have ok: "subspace_ok (4 * b + j) (subspaces sp ! (4 * b + j))" if "j < 4" for j
    using assms that by (simp add: layout_def)
  show ?thesis
    using subspace_ok_at [OF ok [of 0]] subspace_ok_at [OF ok [of 1]]
      subspace_ok_at [OF ok [of 2]] subspace_ok_at [OF ok [of 3]]
    by simp
qed

lemma nth_concat_replicate_4:
  assumes "length xs = 4" and "b < n" and "j < 4"
  shows "concat (replicate n xs) ! (4 * b + j) = xs ! j"
proof -
  have m: "(4 * b + j) mod 4 = j"
    using assms(3) by simp
  have "4 * b + j < n * length xs"
    using assms by simp
  then have "concat (replicate n xs) ! (4 * b + j) = xs ! ((4 * b + j) mod length xs)"
    by (rule nth_concat_replicate)
  also have "\<dots> = xs ! j"
    unfolding assms(1) m ..
  finally show ?thesis .
qed

lemma weights_children:
  assumes "b < n"
  shows "concat (replicate n (bodyWeights pw lw aw ow)) ! (4 * b) = pw
       \<and> concat (replicate n (bodyWeights pw lw aw ow)) ! (4 * b + 1) = lw
       \<and> concat (replicate n (bodyWeights pw lw aw ow)) ! (4 * b + 2) = aw
       \<and> concat (replicate n (bodyWeights pw lw aw ow)) ! (4 * b + 3) = ow"
proof -
  have len: "length (bodyWeights pw lw aw ow) = 4"
    by (simp add: bodyWeights_def)
  show ?thesis
    using nth_concat_replicate_4 [OF len assms, of 0] nth_concat_replicate_4 [OF len assms, of 1]
      nth_concat_replicate_4 [OF len assms, of 2] nth_concat_replicate_4 [OF len assms, of 3]
    by (simp add: bodyWeights_def)
qed

lemma example_default: "MorseStateSpace_default (Some example_env) = Inr example_space"
  by code_simp

text \<open>
  C8.  Construction fails with \<open>ConfigurationError\<close> for a null environment and for an
  environment with no bodies.  For \<open>N \<ge> 1\<close> bodies it succeeds with \<open>4 * N\<close>
  subspaces and weights, for each body a three-dimensional real-vector space at
  \<open>4 * b\<close>, \<open>4 * b + 1\<close> and \<open>4 * b + 2\<close> and an orientation space at \<open>4 * b + 3\<close>,
  weighted by the four weights in this order; the default weights are 1, 0.5, 0.5, 1.
\<close>

theorem construction_fails_or_builds_4N_subspaces:
  "MorseStateSpace_ctor None pw lw aw ow = Inl ConfigurationError
   \<and> (rigidBodies e = 0 \<longrightarrow> MorseStateSpace_ctor (Some e) pw lw aw ow = Inl ConfigurationError)
   \<and> (rigidBodies e \<noteq> 0 \<longrightarrow>
        (\<exists>sp. MorseStateSpace_ctor (Some e) pw lw aw ow = Inr sp
           \<and> length (subspaces sp) = 4 * unat (rigidBodies e)
           \<and> length (weights sp) = 4 * unat (rigidBodies e)
           \<and> (\<forall>b < unat (rigidBodies e).
                 (\<exists>bnd. subspaces sp ! (4 * b) = RealVectorStateSpace 3 bnd)
               \<and> (\<exists>bnd. subspaces sp ! (4 * b + 1) = RealVectorStateSpace 3 bnd)
               \<and> (\<exists>bnd. subspaces sp ! (4 * b + 2) = RealVectorStateSpace 3 bnd)
               \<and> subspaces sp ! (4 * b + 3) = SO3StateSpace
               \<and> weights sp ! (4 * b) = pw
               \<and> weights sp ! (4 * b + 1) = lw
               \<and> weights sp ! (4 * b + 2) = aw
               \<and> weights sp ! (4 * b + 3) = ow)))
   \<and> MorseStateSpace_default (Some e) = MorseStateSpace_ctor (Some e) 1 (1 / 2) (1 / 2) 1"
proof (intro conjI impI)
  show "MorseStateSpace_ctor None pw lw aw ow = Inl ConfigurationError"
    by (simp add: MorseStateSpace_ctor_def)
  show "MorseStateSpace_ctor (Some e) pw lw aw ow = Inl ConfigurationError"
    if "rigidBodies e = 0"
    using that by (simp add: MorseStateSpace_ctor_def)
  show "MorseStateSpace_default (Some e) = MorseStateSpace_ctor (Some e) 1 (1 / 2) (1 / 2) 1"
    by (simp add: MorseStateSpace_default_def)
next
  assume "rigidBodies e \<noteq> 0"
  then obtain sp where sp: "MorseStateSpace_ctor (Some e) pw lw aw ow = Inr sp"
    and l: "layout sp (rigidBodies e)"
    and w: "weights sp = concat (replicate (unat (rigidBodies e)) (bodyWeights pw lw aw ow))"
    using ctor_success [of e pw lw aw ow] by blast
  have "length (subspaces sp) = 4 * unat (rigidBodies e)"
    using l by (simp add: layout_def)
  moreover have "length (weights sp) = 4 * unat (rigidBodies e)"
    by (simp add: w length_concat_replicate bodyWeights_def)
  moreover have "\<forall>b < unat (rigidBodies e).
                 (\<exists>bnd. subspaces sp ! (4 * b) = RealVectorStateSpace 3 bnd)
               \<and> (\<exists>bnd. subspaces sp ! (4 * b + 1) = RealVectorStateSpace 3 bnd)
               \<and> (\<exists>bnd. subspaces sp ! (4 * b + 2) = RealVectorStateSpace 3 bnd)
               \<and> subspaces sp ! (4 * b + 3) = SO3StateSpace
               \<and> weights sp ! (4 * b) = pw
               \<and> weights sp ! (4 * b + 1) = lw
               \<and> weights sp ! (4 * b + 2) = aw
               \<and> weights sp ! (4 * b + 3) = ow"
  proof (intro allI impI)
    fix b assume b: "b < unat (rigidBodies e)"
    show "(\<exists>bnd. subspaces sp ! (4 * b) = RealVectorStateSpace 3 bnd)
               \<and> (\<exists>bnd. subspaces sp ! (4 * b + 1) = RealVectorStateSpace 3 bnd)
               \<and> (\<exists>bnd. subspaces sp ! (4 * b + 2) = RealVectorStateSpace 3 bnd)
               \<and> subspaces sp ! (4 * b + 3) = SO3StateSpace
               \<and> weights sp ! (4 * b) = pw
               \<and> weights sp ! (4 * b + 1) = lw
               \<and> weights sp ! (4 * b + 2) = aw
               \<and> weights sp ! (4 * b + 3) = ow"
      using layout_children [OF l b] weights_children [OF b, of pw lw aw ow]
      unfolding w by blast
  qed
  ultimately show "\<exists>sp. MorseStateSpace_ctor (Some e) pw lw aw ow = Inr sp
           \<and> length (subspaces sp) = 4 * unat (rigidBodies e)
           \<and> length (weights sp) = 4 * unat (rigidBodies e)
           \<and> (\<forall>b < unat (rigidBodies e).
                 (\<exists>bnd. subspaces sp ! (4 * b) = RealVectorStateSpace 3 bnd)
               \<and> (\<exists>bnd. subspaces sp ! (4 * b + 1) = RealVectorStateSpace 3 bnd)
               \<and> (\<exists>bnd. subspaces sp ! (4 * b + 2) = RealVectorStateSpace 3 bnd)
               \<and> subspaces sp ! (4 * b + 3) = SO3StateSpace
               \<and> weights sp ! (4 * b) = pw
               \<and> weights sp ! (4 * b + 1) = lw
               \<and> weights sp ! (4 * b + 2) = aw
               \<and> weights sp ! (4 * b + 3) = ow)"
    using sp by blast
qed

theorem construction_fails_or_builds_4N_subspaces_witness:
  "rigidBodies example_env \<noteq> 0
   \<and> MorseStateSpace_default (Some example_env) = Inr example_space
   \<and> length (subspaces example_space) = 4 * unat (rigidBodies example_env)
   \<and> (1 :: nat) < unat (rigidBodies example_env)
   \<and> subspaces example_space ! (4 * 1 + 3) = SO3StateSpace
   \<and> weights example_space ! (4 * 1 + 1) = 1 / 2
   \<and> rigidBodies (example_env\<lparr>rigidBodies := 0\<rparr>) = 0
   \<and> MorseStateSpace_ctor (Some (example_env\<lparr>rigidBodies := 0\<rparr>)) 1 1 1 1
        = Inl ConfigurationError"
proof -
  have n: "rigidBodies example_env \<noteq> 0" and b: "(1 :: nat) < unat (rigidBodies example_env)"
    by (simp_all add: example_env_def)
  have z: "rigidBodies (example_env\<lparr>rigidBodies := 0\<rparr>) = 0"
    by simp
  show ?thesis
    using construction_fails_or_builds_4N_subspaces [of 1 "1 / 2" "1 / 2" 1 example_env]
      construction_fails_or_builds_4N_subspaces [of 1 1 1 1 "example_env\<lparr>rigidBodies := 0\<rparr>"]
      n b z example_default
    by auto
qed

text \<open>
  C9.  \<open>getNrBodies\<close> returns the body count of the environment the space was
  constructed for.  It reads the space and changes nothing, and every member function
  that changes the space (the bounds setters) leaves its result as it was.
\<close>

theorem getNrBodies_is_the_environment_count:
  "(MorseStateSpace_ctor e pw lw aw ow = Inr sp \<longrightarrow>
      (\<exists>environment. e = Some environment \<and> getEnvironment sp = e
         \<and> getNrBodies sp = Inr (rigidBodies environment)))
   \<and> getNrBodies (setVolumeBounds b sp) = getNrBodies sp
   \<and> getNrBodies (setLinearVelocityBounds b sp) = getNrBodies sp
   \<and> getNrBodies (setAngularVelocityBounds b sp) = getNrBodies sp
   \<and> (setDefaultBounds sp = Inr sp' \<longrightarrow> getNrBodies sp' = getNrBodies sp)"
proof (intro conjI impI)
  assume c: "MorseStateSpace_ctor e pw lw aw ow = Inr sp"
  then obtain environment where e: "e = Some environment" and n: "rigidBodies environment \<noteq> 0"
    by (auto simp: MorseStateSpace_ctor_def split: option.splits if_splits)
  obtain sp1 where "MorseStateSpace_ctor (Some environment) pw lw aw ow = Inr sp1"
    and "layout sp1 (rigidBodies environment)" and "env sp1 = Some environment"
    using ctor_success [OF n, of pw lw aw ow] by blast
  then have "getEnvironment sp = e \<and> getNrBodies sp = Inr (rigidBodies environment)"
    using c e by (simp add: layout_def getEnvironment_def)
  then show "\<exists>environment. e = Some environment \<and> getEnvironment sp = e
         \<and> getNrBodies sp = Inr (rigidBodies environment)"
    using e by blast
next
  show "getNrBodies (setVolumeBounds b sp) = getNrBodies sp"
    by (rule getNrBodies_setVolumeBounds)
  show "getNrBodies (setLinearVelocityBounds b sp) = getNrBodies sp"
    by (rule getNrBodies_setLinearVelocityBounds)
  show "getNrBodies (setAngularVelocityBounds b sp) = getNrBodies sp"
    by (rule getNrBodies_setAngularVelocityBounds)
  show "getNrBodies sp' = getNrBodies sp" if "setDefaultBounds sp = Inr sp'"
    using that by (rule getNrBodies_setDefaultBounds)
qed

theorem getNrBodies_is_the_environment_count_witness:
  "MorseStateSpace_ctor (Some example_env) 1 (1 / 2) (1 / 2) 1 = Inr example_space
   \<and> getNrBodies example_space = Inr 2
   \<and> getNrBodies (setVolumeBounds unitBox example_space) = Inr 2
   \<and> setDefaultBounds example_space = Inr example_space"
proof -
  have c: "MorseStateSpace_ctor (Some example_env) 1 (1 / 2) (1 / 2) 1 = Inr example_space"
    using example_default by (simp add: MorseStateSpace_default_def)
  have d: "setDefaultBounds example_space = Inr example_space"
    by code_simp
  show ?thesis
    using getNrBodies_is_the_environment_count
            [of "Some example_env" 1 "1 / 2" "1 / 2" 1 example_space unitBox example_space]
      c d
    by (simp add: example_env_def)
qed

section \<open>Allocation of states\<close>

lemma allocSubstate_effect:
  assumes "allocSubstate c h = (p, h1)"
  shows "p = brk h" and "brk h < brk h1"
    and "\<forall>a < brk h. states h1 a = states h a \<and> doubles h1 a = doubles h a"
    and "fresh_child c h1 p"
    and "\<forall>n b. c = RealVectorStateSpace n b \<longrightarrow> p + 1 < brk h1"
proof -
  show "p = brk h" "brk h < brk h1" "fresh_child c h1 p"
    "\<forall>n b. c = RealVectorStateSpace n b \<longrightarrow> p + 1 < brk h1"
    using assms by (cases c; auto simp: fresh_child_def)+
  show "\<forall>a < brk h. states h1 a = states h a \<and> doubles h1 a = doubles h a"
    using assms by (cases c) auto
qed

lemma allocStateComponents_inv:
  assumes "allocStateComponents cs h = (ps, h')"
  shows "length ps = length cs \<and> brk h \<le> brk h'
       \<and> (\<forall>p \<in> set ps. brk h \<le> p \<and> p < brk h')
       \<and> distinct ps
       \<and> (\<forall>a < brk h. states h' a = states h a \<and> doubles h' a = doubles h a)
       \<and> (\<forall>i < length cs. fresh_child (cs ! i) h' (ps ! i))"
  using assms
proof (induction cs arbitrary: h ps h')
  case Nil
  then show ?case by simp
next
  case (Cons c cs)
  obtain p h1 where a: "allocSubstate c h = (p, h1)"
    by (cases "allocSubstate c h")
  obtain ps1 h2 where r: "allocStateComponents cs h1 = (ps1, h2)"
    by (cases "allocStateComponents cs h1")
  have ps: "ps = p # ps1" and h': "h' = h2"
    using Cons.prems a r by simp_all
  note e = allocSubstate_effect [OF a]
  have ih: "length ps1 = length cs" "brk h1 \<le> brk h2"
    "\<forall>q \<in> set ps1. brk h1 \<le> q \<and> q < brk h2" "distinct ps1"
    "\<forall>a < brk h1. states h2 a = states h1 a \<and> doubles h2 a = doubles h1 a"
    "\<forall>i < length cs. fresh_child (cs ! i) h2 (ps1 ! i)"
    using Cons.IH [OF r] by simp_all
  have len: "length ps = length (c # cs)"
    using ih(1) ps by simp
  have mono: "brk h \<le> brk h'"
    using e(2) ih(2) h' by simp
  have range: "\<forall>q \<in> set ps. brk h \<le> q \<and> q < brk h'"
    using e(1,2) ih(2,3) ps h' by auto
  have dist: "distinct ps"
    using e(1,2) ih(3,4) ps by auto
  have old: "\<forall>a < brk h. states h' a = states h a \<and> doubles h' a = doubles h a"
    using e(2,3) ih(5) h' by auto
  have first: "fresh_child c h' p"
  proof (cases c)
    case (RealVectorStateSpace n b)
    then have "p + 1 < brk h1" using e(5) by simp
    then have "states h2 p = states h1 p" "doubles h2 (p + 1) = doubles h1 (p + 1)"
      using ih(5) by simp_all
    then show ?thesis
      using e(4) RealVectorStateSpace h' by (simp add: fresh_child_def)
  next
    case SO3StateSpace
    have "states h2 p = states h1 p"
      using ih(5) e(1,2) by simp
    then show ?thesis
      using e(4) SO3StateSpace h' by (simp add: fresh_child_def)
  qed
  have fresh: "\<forall>i < length (c # cs). fresh_child ((c # cs) ! i) h' (ps ! i)"
  proof (intro allI impI)
    fix i assume "i < length (c # cs)"
    then show "fresh_child ((c # cs) ! i) h' (ps ! i)"
      using first ih(6) ps h' by (cases i) simp_all
  qed
  from len mono range dist old fresh show ?case by blast
qed

lemma fresh_child_ok:
  assumes "fresh_child c h p" and "subspace_ok i c"
  shows "child_ok h i p"
  using assms by (cases c) (simp_all add: fresh_child_def subspace_ok_def child_ok_def)

lemma fresh_children_arrays:
  assumes "\<forall>i < length cs. fresh_child (cs ! i) h (ps ! i)" and "length ps = length cs"
  shows "inj_on (\<lambda>p. map_option values_ptr (states h p))
           {p \<in> set ps. \<exists>v. states h p = Some (RealVectorState v)}"
proof (rule inj_onI)
  fix p q
  assume p: "p \<in> {p \<in> set ps. \<exists>v. states h p = Some (RealVectorState v)}"
    and q: "q \<in> {p \<in> set ps. \<exists>v. states h p = Some (RealVectorState v)}"
    and eq: "map_option values_ptr (states h p) = map_option values_ptr (states h q)"
  have own: "states h a = Some (RealVectorState (a + 1))"
    if "a \<in> set ps" and "\<exists>v. states h a = Some (RealVectorState v)" for a
  proof -
    have "\<exists>i < length ps. ps ! i = a"
      using that(1) by (simp add: in_set_conv_nth)
    then obtain i where i: "i < length ps" and a: "a = ps ! i"
      by blast
    have "fresh_child (cs ! i) h a"
      using assms i a by simp
    then show ?thesis
      using that(2) by (cases "cs ! i") (auto simp: fresh_child_def)
  qed
  have "states h p = Some (RealVectorState (p + 1))" "states h q = Some (RealVectorState (q + 1))"
    using own p q by simp_all
  then show "p = q" using eq by simp
qed

lemma allocState_allocated:
  assumes l: "layout sp N" and a: "allocState sp h = (s, h')" and fit: "4 * unat N \<le> 2 ^ 32"
  shows "allocated h' N s"
proof -
  obtain ps where r: "allocStateComponents (subspaces sp) h = (ps, h')"
    and s: "s = StateType_ctor\<lparr>components := ps\<rparr>"
    using a by (auto simp: allocState_def split: prod.splits)
  have inv: "length ps = length (subspaces sp)" "distinct ps"
    "\<forall>i < length (subspaces sp). fresh_child (subspaces sp ! i) h' (ps ! i)"
    using allocStateComponents_inv [OF r] by simp_all
  have len: "length (subspaces sp) = 4 * unat N"
    and ok: "\<forall>i < length (subspaces sp). subspace_ok i (subspaces sp ! i)"
    using l by (simp_all add: layout_def)
  have "\<forall>i < length ps. child_ok h' i (ps ! i)"
  proof (intro allI impI)
    fix i assume "i < length ps"
    then have "fresh_child (subspaces sp ! i) h' (ps ! i)" "subspace_ok i (subspaces sp ! i)"
      using inv(1,3) ok by simp_all
    then show "child_ok h' i (ps ! i)"
      by (rule fresh_child_ok)
  qed
  moreover have "inj_on (\<lambda>p. map_option values_ptr (states h' p))
           {p \<in> set ps. \<exists>v. states h' p = Some (RealVectorState v)}"
    by (rule fresh_children_arrays [OF inv(3) inv(1)])
  ultimately show ?thesis
    using inv(1,2) len fit by (simp add: allocated_def s)
qed

lemma fresh_vector_zero:
  assumes "fresh_child (RealVectorStateSpace 3 bnd) h p"
  shows "\<exists>v. states h p = Some (RealVectorState v) \<and> doubles h v = Some [0, 0, 0]"
  using assms by (simp add: fresh_child_def numeral_3_eq_3)

lemma allocState_zero:
  assumes l: "layout sp N" and a: "allocState sp h = (s, h')" and b: "b < unat N"
  shows "(\<exists>p. states h' (components s ! (4 * b)) = Some (RealVectorState p)
              \<and> doubles h' p = Some [0, 0, 0])
       \<and> (\<exists>p. states h' (components s ! (4 * b + 1)) = Some (RealVectorState p)
              \<and> doubles h' p = Some [0, 0, 0])
       \<and> (\<exists>p. states h' (components s ! (4 * b + 2)) = Some (RealVectorState p)
              \<and> doubles h' p = Some [0, 0, 0])
       \<and> states h' (components s ! (4 * b + 3)) = Some (SO3State 0 0 0 0)"
proof -
  obtain ps where r: "allocStateComponents (subspaces sp) h = (ps, h')"
    and s: "s = StateType_ctor\<lparr>components := ps\<rparr>"
    using a by (auto simp: allocState_def split: prod.splits)
  have len: "length (subspaces sp) = 4 * unat N"
    using l by (simp add: layout_def)
  have all: "\<forall>i < length (subspaces sp). fresh_child (subspaces sp ! i) h' (ps ! i)"
    using allocStateComponents_inv [OF r] by simp
  have fr: "fresh_child (subspaces sp ! (4 * b + j)) h' (components s ! (4 * b + j))"
    if "j < 4" for j
  proof -
    have "4 * b + j < length (subspaces sp)"
      using len b that by simp
    then show ?thesis using all by (simp add: s)
  qed
  note k = layout_children [OF l b]
  obtain b0 where b0: "subspaces sp ! (4 * b) = RealVectorStateSpace 3 b0"
    using k by blast
  obtain b1 where b1: "subspaces sp ! (4 * b + 1) = RealVectorStateSpace 3 b1"
    using k by blast
  obtain b2 where b2: "subspaces sp ! (4 * b + 2) = RealVectorStateSpace 3 b2"
    using k by blast
  have b3: "subspaces sp ! (4 * b + 3) = SO3StateSpace"
    using k by blast
  have c0: "\<exists>p. states h' (components s ! (4 * b)) = Some (RealVectorState p)
              \<and> doubles h' p = Some [0, 0, 0]"
    using fr [of 0] b0 fresh_vector_zero [of b0 h' "components s ! (4 * b)"] by simp
  have c1: "\<exists>p. states h' (components s ! (4 * b + 1)) = Some (RealVectorState p)
              \<and> doubles h' p = Some [0, 0, 0]"
    using fr [of 1] fresh_vector_zero [of b1 h' "components s ! (4 * b + 1)"]
    unfolding b1 by simp
  have c2: "\<exists>p. states h' (components s ! (4 * b + 2)) = Some (RealVectorState p)
              \<and> doubles h' p = Some [0, 0, 0]"
    using fr [of 2] fresh_vector_zero [of b2 h' "components s ! (4 * b + 2)"]
    unfolding b2 by simp
  have c3: "states h' (components s ! (4 * b + 3)) = Some (SO3State 0 0 0 0)"
    using fr [of 3] unfolding b3 by (simp add: fresh_child_def)
  from c0 c1 c2 c3 show ?thesis by blast
qed

lemma example_layout: "layout example_space 2"
proof -
  have "rigidBodies example_env \<noteq> 0" and n: "rigidBodies example_env = 2"
    by (simp_all add: example_env_def)
  then obtain sp where "MorseStateSpace_ctor (Some example_env) 1.0 0.5 0.5 1.0 = Inr sp"
    and "layout sp (rigidBodies example_env)"
    using ctor_success [of example_env "1.0" "0.5" "0.5" "1.0"] by blast
  then show ?thesis
    using example_default n by (simp add: MorseStateSpace_default_def)
qed

text \<open>
  C7.  The constructor of the state sets \<open>validCollision\<close> to true.  \<open>allocState\<close> of a
  space for \<open>N\<close> bodies returns a state with \<open>4 * N\<close> children and \<open>validCollision\<close>
  true, in which every position, linear-velocity and angular-velocity child has an
  array of three zeros and every orientation child is the zero quaternion; when the
  children are addressable by an \<open>unsigned int\<close> index the state is an allocated state
  in the sense of the accessor theorems.
\<close>

theorem allocState_zero_initialised_and_valid:
  assumes "layout sp N" and "allocState sp h = (s, h')"
  shows "validCollision StateType_ctor
       \<and> validCollision s
       \<and> length (components s) = 4 * unat N
       \<and> (\<forall>b < unat N.
             (\<exists>p. states h' (components s ! (4 * b)) = Some (RealVectorState p)
                  \<and> doubles h' p = Some [0, 0, 0])
           \<and> (\<exists>p. states h' (components s ! (4 * b + 1)) = Some (RealVectorState p)
                  \<and> doubles h' p = Some [0, 0, 0])
           \<and> (\<exists>p. states h' (components s ! (4 * b + 2)) = Some (RealVectorState p)
                  \<and> doubles h' p = Some [0, 0, 0])
           \<and> states h' (components s ! (4 * b + 3)) = Some (SO3State 0 0 0 0))
       \<and> (4 * unat N \<le> 2 ^ 32 \<longrightarrow> allocated h' N s)"
proof -
  obtain ps where r: "allocStateComponents (subspaces sp) h = (ps, h')"
    and s: "s = StateType_ctor\<lparr>components := ps\<rparr>"
    using assms(2) by (auto simp: allocState_def split: prod.splits)
  have c: "validCollision StateType_ctor"
    by (simp add: StateType_ctor_def)
  then have v: "validCollision s"
    by (simp add: s)
  have "length ps = length (subspaces sp)"
    using allocStateComponents_inv [OF r] by simp
  then have len: "length (components s) = 4 * unat N"
    using assms(1) by (simp add: layout_def s)
  have zero: "\<forall>b < unat N.
             (\<exists>p. states h' (components s ! (4 * b)) = Some (RealVectorState p)
                  \<and> doubles h' p = Some [0, 0, 0])
           \<and> (\<exists>p. states h' (components s ! (4 * b + 1)) = Some (RealVectorState p)
                  \<and> doubles h' p = Some [0, 0, 0])
           \<and> (\<exists>p. states h' (components s ! (4 * b + 2)) = Some (RealVectorState p)
                  \<and> doubles h' p = Some [0, 0, 0])
           \<and> states h' (components s ! (4 * b + 3)) = Some (SO3State 0 0 0 0)"
    using allocState_zero [OF assms] by blast
  have al: "4 * unat N \<le> 2 ^ 32 \<longrightarrow> allocated h' N s"
    using allocState_allocated [OF assms] by blast
  from c v len zero al show ?thesis by blast
qed

theorem allocState_zero_initialised_and_valid_witness:
  "layout example_space 2
   \<and> components (fst (allocState example_space empty_heap)) = [0, 2, 4, 6, 7, 9, 11, 13]
   \<and> validCollision (fst (allocState example_space empty_heap))
   \<and> states (snd (allocState example_space empty_heap)) 13 = Some (SO3State 0 0 0 0)
   \<and> allocated (snd (allocState example_space empty_heap)) 2
        (fst (allocState example_space empty_heap))"
proof -
  have p: "allocState example_space empty_heap
        = (fst (allocState example_space empty_heap), snd (allocState example_space empty_heap))"
    by simp
  have c: "components (fst (allocState example_space empty_heap)) = [0, 2, 4, 6, 7, 9, 11, 13]"
    by (simp add: allocState_def example_space_def empty_heap_def)
  have b: "(1 :: nat) < unat (2 :: uint)"
    by simp
  note t = allocState_zero_initialised_and_valid [OF example_layout p]
  have "states (snd (allocState example_space empty_heap))
          (components (fst (allocState example_space empty_heap)) ! (4 * 1 + 3))
        = Some (SO3State 0 0 0 0)"
    using t b by blast
  then have z: "states (snd (allocState example_space empty_heap)) 13 = Some (SO3State 0 0 0 0)"
    by (simp add: c)
  show ?thesis
    using t example_layout c z by simp
qed

section \<open>The bounds check without orientations\<close>

lemma satisfiesBoundsChildren_cong:
  assumes "doubles h' = doubles h"
    and "\<forall>(c, p) \<in> set zs. c \<noteq> SO3StateSpace \<longrightarrow> states h' p = states h p"
  shows "satisfiesBoundsChildren h' zs = satisfiesBoundsChildren h zs"
  using assms(2)
proof (induction zs)
  case Nil
  show ?case by simp
next
  case (Cons z zs)
  obtain c p where z: "z = (c, p)" by (cases z)
  have ih: "satisfiesBoundsChildren h' zs = satisfiesBoundsChildren h zs"
    using Cons by simp
  show ?case
  proof (cases c)
    case SO3StateSpace
    then show ?thesis using ih z by simp
  next
    case (RealVectorStateSpace n b)
    then have "states h' p = states h p"
      using Cons.prems z by simp
    then have "values_of h' p = values_of h p"
      by (simp add: values_of_def)
    then show ?thesis
      using ih z RealVectorStateSpace assms(1)
      by (simp split: sum.splits option.splits)
  qed
qed

lemma satisfiesBoundsChildren_char:
  assumes "\<forall>(c, p) \<in> set zs. c \<noteq> SO3StateSpace \<longrightarrow>
             (\<exists>v vs. states h p = Some (RealVectorState v) \<and> doubles h v = Some vs)"
  shows "satisfiesBoundsChildren h zs =
           Inr (\<forall>(c, p) \<in> set zs. \<forall>n b. c = RealVectorStateSpace n b \<longrightarrow>
                  (\<exists>v vs. states h p = Some (RealVectorState v) \<and> doubles h v = Some vs
                     \<and> inBounds b vs))"
  using assms
proof (induction zs)
  case Nil
  show ?case by simp
next
  case (Cons z zs)
  obtain c p where z: "z = (c, p)" by (cases z)
  have ih: "satisfiesBoundsChildren h zs =
           Inr (\<forall>(c, p) \<in> set zs. \<forall>n b. c = RealVectorStateSpace n b \<longrightarrow>
                  (\<exists>v vs. states h p = Some (RealVectorState v) \<and> doubles h v = Some vs
                     \<and> inBounds b vs))"
    using Cons by simp
  show ?case
  proof (cases c)
    case SO3StateSpace
    then show ?thesis using ih z by simp
  next
    case (RealVectorStateSpace n b)
    then obtain v vs where v: "states h p = Some (RealVectorState v)" and vs: "doubles h v = Some vs"
      using Cons.prems z by auto
    show ?thesis
    proof (cases "inBounds b vs")
      case True
      then show ?thesis
        using ih z RealVectorStateSpace v vs by (simp add: values_of_def)
    next
      case False
      then show ?thesis
        using z RealVectorStateSpace v vs by (simp add: values_of_def)
    qed
  qed
qed

lemma ball_zip_nth:
  assumes "length xs = length ys"
  shows "(\<forall>(x, y) \<in> set (zip xs ys). P x y) \<longleftrightarrow> (\<forall>i < length ys. P (xs ! i) (ys ! i))"
  using assms by (auto simp: set_zip)

lemma vector_child_index:
  fixes N :: uint
  assumes "i < 4 * unat N" and "4 * unat N \<le> 2 ^ 32" and "i mod 4 \<noteq> 3"
  shows "\<exists>body k. body < N \<and> k \<noteq> Rotation \<and> 4 * unat body + offset k = i
           \<and> unat (childIndex k body) = i"
proof -
  let ?b = "of_nat (i div 4) :: uint"
  have d: "i div 4 < unat N"
    using assms(1) by simp
  then have small: "i div 4 < 2 ^ 30"
    using assms(2) by simp
  then have u: "unat ?b = i div 4"
    by (simp add: unat_of_nat)
  have lt: "?b < N"
    using d u by (simp add: word_less_nat_alt)
  have "i mod 4 = 0 \<or> i mod 4 = 1 \<or> i mod 4 = 2"
    using assms(3) by arith
  then obtain k where k: "k \<noteq> Rotation" and o: "offset k = i mod 4"
  proof (elim disjE)
    assume "i mod 4 = 0"
    then have "Position \<noteq> Rotation \<and> offset Position = i mod 4" by (simp add: offset_def)
    then show ?thesis using that by blast
  next
    assume "i mod 4 = 1"
    then have "LinearVelocity \<noteq> Rotation \<and> offset LinearVelocity = i mod 4" by (simp add: offset_def)
    then show ?thesis using that by blast
  next
    assume "i mod 4 = 2"
    then have "AngularVelocity \<noteq> Rotation \<and> offset AngularVelocity = i mod 4" by (simp add: offset_def)
    then show ?thesis using that by blast
  qed
  have i: "4 * unat ?b + offset k = i"
    using u o by simp
  have "unat ?b < 2 ^ 30"
    using u small by simp
  then have "unat (childIndex k ?b) = i"
    using unat_childIndex [of ?b k] i by simp
  with lt k i show ?thesis by blast
qed

lemma layout_vector_subspace:
  assumes "layout sp N" and "i < 4 * unat N"
  shows "i mod 4 \<noteq> 3 \<longleftrightarrow> (\<exists>bnd. subspaces sp ! i = RealVectorStateSpace 3 bnd)"
    and "i mod 4 \<noteq> 3 \<longleftrightarrow> subspaces sp ! i \<noteq> SO3StateSpace"
proof -
  have "subspace_ok i (subspaces sp ! i)"
    using assms by (simp add: layout_def)
  then show "i mod 4 \<noteq> 3 \<longleftrightarrow> (\<exists>bnd. subspaces sp ! i = RealVectorStateSpace 3 bnd)"
    and "i mod 4 \<noteq> 3 \<longleftrightarrow> subspaces sp ! i \<noteq> SO3StateSpace"
    by (cases "subspaces sp ! i"; simp add: subspace_ok_def)+
qed

lemma child_in_bounds_iff:
  assumes l: "layout sp N" and al: "allocated h N s" and b: "body < N" and k: "k \<noteq> Rotation"
  shows "(\<forall>n bnd. subspaces sp ! (4 * unat body + offset k) = RealVectorStateSpace n bnd \<longrightarrow>
            (\<exists>v vs. states h (components s ! (4 * unat body + offset k)) = Some (RealVectorState v)
               \<and> doubles h v = Some vs \<and> inBounds bnd vs))
         \<longleftrightarrow> subStateInBounds sp h s k body"
proof -
  let ?i = "4 * unat body + offset k"
  have bb: "unat body < 2 ^ 30" and len: "4 * unat body + 3 < length (components s)"
    using allocated_body_bound [OF al b] by simp_all
  have n: "length (components s) = 4 * unat N"
    using al by (simp add: allocated_def)
  have i: "?i < 4 * unat N"
    using len n offset_less_4 [of k] by simp
  have m: "?i mod 4 \<noteq> 3"
    unfolding offset_mod_4 using k by (simp add: offset_eq_3)
  obtain bnd where c: "subspaces sp ! ?i = RealVectorStateSpace 3 bnd"
    using layout_vector_subspace(1) [OF l i] m by blast
  obtain p where p: "states h (components s ! ?i) = Some (RealVectorState p)"
    and a: "accessor k h s body = Inr (Doubles p)"
    using accessor_vector [OF al b k] by blast
  have u: "unat (childIndex k body) = ?i"
    by (rule unat_childIndex [OF bb])
  have f1: "(\<forall>n bnd. subspaces sp ! ?i = RealVectorStateSpace n bnd \<longrightarrow>
            (\<exists>v vs. states h (components s ! ?i) = Some (RealVectorState v)
               \<and> doubles h v = Some vs \<and> inBounds bnd vs))
        \<longleftrightarrow> (\<exists>vs. doubles h p = Some vs \<and> inBounds bnd vs)"
    by (simp add: c p)
  have f2: "(\<exists>vs. doubles h p = Some vs \<and> inBounds bnd vs) \<longleftrightarrow> subStateInBounds sp h s k body"
    by (simp add: subStateInBounds_def a u c)
  show ?thesis
    unfolding f1 f2 ..
qed

lemma satisfiesBoundsExceptRotation_char:
  assumes l: "layout sp N" and al: "allocated h N s"
  shows "satisfiesBoundsExceptRotation sp h s =
           Inr (\<forall>body < N. \<forall>k. k \<noteq> Rotation \<longrightarrow> subStateInBounds sp h s k body)"
proof -
  let ?cs = "subspaces sp" and ?ps = "components s"
  let ?Q = "\<lambda>c p. \<forall>n b. c = RealVectorStateSpace n b \<longrightarrow>
                  (\<exists>v vs. states h p = Some (RealVectorState v) \<and> doubles h v = Some vs
                     \<and> inBounds b vs)"
  have n: "length ?ps = 4 * unat N" and fit: "4 * unat N \<le> 2 ^ 32"
    using al by (simp_all add: allocated_def)
  have len: "length ?cs = length ?ps"
    using l n by (simp add: layout_def)
  have readable: "\<forall>i < length ?ps. ?cs ! i \<noteq> SO3StateSpace \<longrightarrow>
             (\<exists>v vs. states h (?ps ! i) = Some (RealVectorState v) \<and> doubles h v = Some vs)"
  proof (intro allI impI)
    fix i assume i: "i < length ?ps" and c: "?cs ! i \<noteq> SO3StateSpace"
    have "i mod 4 \<noteq> 3"
      using layout_vector_subspace(2) [OF l, of i] i n c by simp
    moreover have "child_ok h i (?ps ! i)"
      by (rule allocated_child_ok [OF al i])
    ultimately show "\<exists>v vs. states h (?ps ! i) = Some (RealVectorState v) \<and> doubles h v = Some vs"
      by (auto simp: child_ok_def split: option.splits substate.splits)
  qed
  then have "\<forall>(c, p) \<in> set (zip ?cs ?ps). c \<noteq> SO3StateSpace \<longrightarrow>
             (\<exists>v vs. states h p = Some (RealVectorState v) \<and> doubles h v = Some vs)"
    using ball_zip_nth [OF len, of "\<lambda>c p. c \<noteq> SO3StateSpace \<longrightarrow>
             (\<exists>v vs. states h p = Some (RealVectorState v) \<and> doubles h v = Some vs)"]
    by simp
  then have "satisfiesBoundsChildren h (zip ?cs ?ps) = Inr (\<forall>(c, p) \<in> set (zip ?cs ?ps). ?Q c p)"
    by (rule satisfiesBoundsChildren_char)
  also have "(\<forall>(c, p) \<in> set (zip ?cs ?ps). ?Q c p) \<longleftrightarrow> (\<forall>i < length ?ps. ?Q (?cs ! i) (?ps ! i))"
    by (rule ball_zip_nth [OF len])
  also have "\<dots> \<longleftrightarrow> (\<forall>body < N. \<forall>k. k \<noteq> Rotation \<longrightarrow> subStateInBounds sp h s k body)"
  proof
    assume all: "\<forall>i < length ?ps. ?Q (?cs ! i) (?ps ! i)"
    show "\<forall>body < N. \<forall>k. k \<noteq> Rotation \<longrightarrow> subStateInBounds sp h s k body"
    proof (intro allI impI)
      fix body k assume b: "body < N" and k: "k \<noteq> Rotation"
      have "4 * unat body + offset k < length ?ps"
        using allocated_body_bound(2) [OF al b] offset_less_4 [of k] by simp
      then have "?Q (?cs ! (4 * unat body + offset k)) (?ps ! (4 * unat body + offset k))"
        using all by blast
      then show "subStateInBounds sp h s k body"
        using child_in_bounds_iff [OF l al b k] by blast
    qed
  next
    assume all: "\<forall>body < N. \<forall>k. k \<noteq> Rotation \<longrightarrow> subStateInBounds sp h s k body"
    show "\<forall>i < length ?ps. ?Q (?cs ! i) (?ps ! i)"
    proof (rule allI, rule impI)
      fix i assume i: "i < length ?ps"
      show "?Q (?cs ! i) (?ps ! i)"
      proof (cases "i mod 4 = 3")
        case True
        then have "?cs ! i = SO3StateSpace"
          using layout_vector_subspace(2) [OF l, of i] i n by simp
        then show ?thesis by simp
      next
        case False
        then obtain body k where b: "body < N" and k: "k \<noteq> Rotation"
          and e: "4 * unat body + offset k = i"
          using vector_child_index [of i N] i n fit by auto
        have "subStateInBounds sp h s k body"
          using all b k by blast
        then show ?thesis
          using child_in_bounds_iff [OF l al b k] unfolding e by blast
      qed
    qed
  qed
  finally show ?thesis
    using len by (simp add: satisfiesBoundsExceptRotation_def)
qed

lemma satisfiesBoundsExceptRotation_frame:
  assumes l: "layout sp N" and n: "length (components s) = 4 * unat N"
    and d: "doubles h' = doubles h"
    and st: "\<forall>i < 4 * unat N. i mod 4 \<noteq> 3 \<longrightarrow>
               states h' (components s ! i) = states h (components s ! i)"
  shows "satisfiesBoundsExceptRotation sp h' s = satisfiesBoundsExceptRotation sp h s"
proof -
  have len: "length (subspaces sp) = length (components s)"
    using l n by (simp add: layout_def)
  have "\<forall>i < length (components s). subspaces sp ! i \<noteq> SO3StateSpace \<longrightarrow>
          states h' (components s ! i) = states h (components s ! i)"
    using st layout_vector_subspace(2) [OF l] n by simp
  then have "\<forall>(c, p) \<in> set (zip (subspaces sp) (components s)).
          c \<noteq> SO3StateSpace \<longrightarrow> states h' p = states h p"
    using ball_zip_nth [OF len, of "\<lambda>c p. c \<noteq> SO3StateSpace \<longrightarrow> states h' p = states h p"]
    by simp
  then have "satisfiesBoundsChildren h' (zip (subspaces sp) (components s))
           = satisfiesBoundsChildren h (zip (subspaces sp) (components s))"
    by (rule satisfiesBoundsChildren_cong [OF d])
  then show ?thesis
    by (simp add: satisfiesBoundsExceptRotation_def)
qed

lemma satisfiesBoundsExceptRotation_rotation_write:
  assumes l: "layout sp N" and al: "allocated h N s" and b: "body < N"
    and q: "getBodyRotation s body = Inr q" and w: "writeView h (Quaternion q) x = Inr h'"
  shows "satisfiesBoundsExceptRotation sp h' s = satisfiesBoundsExceptRotation sp h s"
proof -
  obtain a1 a2 a3 a4 where x: "x = Quat a1 a2 a3 a4"
    using w by (cases x) simp_all
  have h': "h' = h\<lparr>states := (states h)(q \<mapsto> SO3State a1 a2 a3 a4)\<rparr>"
    using w x by (simp split: option.splits substate.splits)
  have n: "length (components s) = 4 * unat N" and dist: "distinct (components s)"
    using al by (simp_all add: allocated_def)
  have r: "accessor Rotation h s body = Inr (Quaternion (components s ! (4 * unat body + 3)))"
    by (rule accessor_rotation [OF al b])
  then have qc: "q = components s ! (4 * unat body + 3)"
    using q by (simp add: accessor_def)
  have j: "4 * unat body + 3 < length (components s)"
    by (rule allocated_body_bound(2) [OF al b])
  have "\<forall>i < 4 * unat N. i mod 4 \<noteq> 3 \<longrightarrow>
               states h' (components s ! i) = states h (components s ! i)"
  proof (intro allI impI)
    fix i assume i: "i < 4 * unat N" and m: "i mod 4 \<noteq> 3"
    have "(4 * unat body + 3) mod 4 = 3" by simp
    then have "i \<noteq> 4 * unat body + 3" using m by metis
    then have "components s ! i \<noteq> q"
      using dist i j n qc by (simp add: nth_eq_iff_index_eq)
    then show "states h' (components s ! i) = states h (components s ! i)"
      by (simp add: h')
  qed
  moreover have "doubles h' = doubles h"
    by (simp add: h')
  ultimately show ?thesis
    using satisfiesBoundsExceptRotation_frame [OF l n] by blast
qed

text \<open>
  C3.  For a space laid out for \<open>N\<close> bodies and an allocated state,
  \<open>satisfiesBoundsExceptRotation\<close> returns true exactly when, for every body, the
  position, the linear velocity and the angular velocity lie within the bounds of their
  subspaces.  The orientation children are never read: a store that agrees on the arrays
  and on the position and velocity children gives the same result, and so does the store
  after any assignment through \<open>getBodyRotation\<close>.
\<close>

theorem satisfiesBoundsExceptRotation_ignores_orientation:
  assumes "layout sp N" and "allocated h N s"
  shows "satisfiesBoundsExceptRotation sp h s
           = Inr (\<forall>body < N. \<forall>k. k \<noteq> Rotation \<longrightarrow> subStateInBounds sp h s k body)
       \<and> (\<forall>h'. doubles h' = doubles h
             \<longrightarrow> (\<forall>i < 4 * unat N. i mod 4 \<noteq> 3
                    \<longrightarrow> states h' (components s ! i) = states h (components s ! i))
             \<longrightarrow> satisfiesBoundsExceptRotation sp h' s = satisfiesBoundsExceptRotation sp h s)
       \<and> (\<forall>body q x h'. body < N \<longrightarrow> getBodyRotation s body = Inr q
             \<longrightarrow> writeView h (Quaternion q) x = Inr h'
             \<longrightarrow> satisfiesBoundsExceptRotation sp h' s = satisfiesBoundsExceptRotation sp h s)"
proof -
  have n: "length (components s) = 4 * unat N"
    using assms(2) by (simp add: allocated_def)
  have a: "satisfiesBoundsExceptRotation sp h s
           = Inr (\<forall>body < N. \<forall>k. k \<noteq> Rotation \<longrightarrow> subStateInBounds sp h s k body)"
    by (rule satisfiesBoundsExceptRotation_char [OF assms])
  have b: "\<forall>h'. doubles h' = doubles h
             \<longrightarrow> (\<forall>i < 4 * unat N. i mod 4 \<noteq> 3
                    \<longrightarrow> states h' (components s ! i) = states h (components s ! i))
             \<longrightarrow> satisfiesBoundsExceptRotation sp h' s = satisfiesBoundsExceptRotation sp h s"
    using satisfiesBoundsExceptRotation_frame [OF assms(1) n] by blast
  have c: "\<forall>body q x h'. body < N \<longrightarrow> getBodyRotation s body = Inr q
             \<longrightarrow> writeView h (Quaternion q) x = Inr h'
             \<longrightarrow> satisfiesBoundsExceptRotation sp h' s = satisfiesBoundsExceptRotation sp h s"
    using satisfiesBoundsExceptRotation_rotation_write [OF assms] by blast
  from a b c show ?thesis by blast
qed

theorem satisfiesBoundsExceptRotation_ignores_orientation_witness:
  "layout example_space 2 \<and> allocated example_heap 2 example_state
   \<and> satisfiesBoundsExceptRotation example_space example_heap example_state = Inr True
   \<and> subStateInBounds example_space example_heap example_state Position 1
   \<and> getBodyRotation example_state 1 = Inr 17
   \<and> writeView example_heap (Quaternion 17) (Quat 5 5 5 5)
       = Inr (example_heap\<lparr>states := (states example_heap)(17 \<mapsto> SO3State 5 5 5 5)\<rparr>)
   \<and> satisfiesBoundsExceptRotation example_space
        (example_heap\<lparr>states := (states example_heap)(17 \<mapsto> SO3State 5 5 5 5)\<rparr>) example_state
       = Inr True"
proof -
  note t = satisfiesBoundsExceptRotation_ignores_orientation [OF example_layout example_allocated]
  have e: "satisfiesBoundsExceptRotation example_space example_heap example_state = Inr True"
    by (simp add: satisfiesBoundsExceptRotation_def example_space_def example_heap_def
          example_state_def example_env_def values_of_def inBounds_def unitBox_def)
  have lt: "(1 :: uint) < 2" by simp
  have "\<forall>body < 2. \<forall>k. k \<noteq> Rotation
          \<longrightarrow> subStateInBounds example_space example_heap example_state k body"
    using t e by simp
  then have p: "subStateInBounds example_space example_heap example_state Position 1"
    using lt by blast
  have q: "getBodyRotation example_state 1 = Inr 17"
    by (simp add: getBodyRotation_def as_T_def example_state_def)
  have w: "writeView example_heap (Quaternion 17) (Quat 5 5 5 5)
       = Inr (example_heap\<lparr>states := (states example_heap)(17 \<mapsto> SO3State 5 5 5 5)\<rparr>)"
    by (simp add: example_heap_def)
  have "satisfiesBoundsExceptRotation example_space
        (example_heap\<lparr>states := (states example_heap)(17 \<mapsto> SO3State 5 5 5 5)\<rparr>) example_state
      = satisfiesBoundsExceptRotation example_space example_heap example_state"
    using t lt q w by blast
  then show ?thesis
    using example_layout example_allocated e p q w by simp
qed

section \<open>The validity flag after interpolation\<close>

text \<open>
  C5.  Whatever the flags of the two endpoints and of \<open>out\<close> were, the state that
  \<open>interpolate\<close> leaves in \<open>out\<close> has \<open>validCollision\<close> true; its children are the
  ones it had.
\<close>

theorem interpolate_resets_validCollision:
  "validCollision (snd (interpolate compound h a b t out)) = True
   \<and> components (snd (interpolate compound h a b t out)) = components out"
  by (simp add: interpolate_def)

end
